theory Spec2Isabelle
  imports Complex_Main "HOL-Library.Log_Nat"
begin

section \<open>Python primitives used by the user-interface modules\<close>

text \<open>
  The two source files are \<^verbatim>\<open>python/PiFinder/uimodules.py\<close> (the catalog-search screen
  \<^verbatim>\<open>UICatalog\<close>) and \<^verbatim>\<open>python/PiFinder/ui/locate.py\<close> (the push-to screen
  \<^verbatim>\<open>UILocate\<close>). Python exceptions are values of \<open>py_error\<close>.
\<close>

datatype py_error = IndexError | TypeError | ValueError

text \<open>
  A Python float is an IEEE 754 binary64 number: a real number with 53 significant bits,
  and every arithmetic operation returns the exact result rounded to the nearest such
  number, ties going to the even significand. \<open>exponent x\<close> is the binary exponent of
  \<open>x\<close> (not below that of the subnormal numbers), \<open>ulp x\<close> the spacing of the floats
  around \<open>x\<close>, and \<open>binary64 x\<close> the float nearest to \<open>x\<close>. Infinities and NaN are
  left out: the model is that of the finite floats, of magnitude up to \<open>2 ^ emax\<close>, where
  no operation overflows.
\<close>

definition round_half_even :: "real \<Rightarrow> int" where
  "round_half_even q =
     (if q - of_int \<lfloor>q\<rfloor> < 1 / 2 then \<lfloor>q\<rfloor>
      else if 1 / 2 < q - of_int \<lfloor>q\<rfloor> then \<lfloor>q\<rfloor> + 1
      else if even \<lfloor>q\<rfloor> then \<lfloor>q\<rfloor> else \<lfloor>q\<rfloor> + 1)"

definition emin :: nat where
  "emin = 1074"

definition emax :: nat where
  "emax = 1023"

definition exponent :: "real \<Rightarrow> int" where
  "exponent x = bitlen \<lfloor>\<bar>x\<bar> * 2 ^ emin\<rfloor> - 1 - int emin"

definition ulp :: "real \<Rightarrow> real" where
  "ulp x = 2 powi (max (exponent x - 52) (- int emin))"

definition binary64 :: "real \<Rightarrow> real" where
  "binary64 x = of_int (round_half_even (x / ulp x)) * ulp x"

text \<open>
  Python's \<^verbatim>\<open>x % y\<close> on floats, for a divisor other than zero, as the interpreter
  computes it: the remainder of C's \<^verbatim>\<open>fmod\<close>, which is exact and has the sign of \<open>x\<close>,
  and, where that is not zero and its sign differs from the divisor's, the float sum of it
  and the divisor.
\<close>

definition fmod :: "real \<Rightarrow> real \<Rightarrow> real" where
  "fmod x y = x - y * of_int (if 0 \<le> x / y then \<lfloor>x / y\<rfloor> else \<lceil>x / y\<rceil>)"

definition py_mod :: "real \<Rightarrow> real \<Rightarrow> real" where
  "py_mod x y =
     (let m = fmod x y
      in if m = 0 then 0 else if (y < 0) = (m < 0) then m else binary64 (m + y))"

text \<open>
  \<^verbatim>\<open>locate.py\<close>, lines 172 and 175: \<^verbatim>\<open>az_diff = (az_diff + 180) % 360 - 180\<close> and the
  same expression for \<^verbatim>\<open>alt_diff\<close>, each of the three operations on floats.
\<close>

definition normalize_signed_180 :: "real \<Rightarrow> real" where
  "normalize_signed_180 x = binary64 (py_mod (binary64 (x + 180)) 360 - 180)"

text \<open>
  \<^verbatim>\<open>str(n)\<close> for a non-negative integer: its decimal numeral.
\<close>

definition digits10 :: string where
  "digits10 = ''0123456789''"

fun str :: "nat \<Rightarrow> string" where
  "str n = (if n < 10 then [digits10 ! n] else str (n div 10) @ [digits10 ! (n mod 10)])"

declare str.simps [simp del]

text \<open>
  \<^verbatim>\<open>s.strip()\<close> removes leading and trailing blanks; \<^verbatim>\<open>s.replace("-", "")\<close>
  deletes every dash.
\<close>

definition strip :: "string \<Rightarrow> string" where
  "strip s = rev (dropWhile (\<lambda>c. c = CHR '' '') (rev (dropWhile (\<lambda>c. c = CHR '' '') s)))"

definition remove_dashes :: "string \<Rightarrow> string" where
  "remove_dashes s = filter (\<lambda>c. c \<noteq> CHR ''-'') s"

section \<open>The catalog store\<close>

text \<open>
  A row of the table \<^verbatim>\<open>objects\<close>, with the columns the two screens read. The locate
  screen reads the number of an object under the key \<^verbatim>\<open>sequence\<close>, the catalog screen
  under \<^verbatim>\<open>designation\<close>; both are the field \<open>designation\<close> here.
\<close>

record catalog_object =
  catalog :: string
  designation :: nat
  obj_type :: string
  const :: string
  ra :: real
  dec :: real

type_synonym objects_table = "catalog_object list"

text \<open>
  Modelled from the spec: the schema of the table \<^verbatim>\<open>objects\<close> and the database engine are
  not in the source. The column \<^verbatim>\<open>designation\<close> holds integers (the specification's data
  model: a positive integer, ordered numerically within a catalog), so the engine reads the
  quoted key as a number before it compares; a key that is not a decimal numeral (the empty
  key) stays a text and every integer is below it.
\<close>

definition digit_val :: "char \<Rightarrow> nat option" where
  "digit_val c = map_of (zip digits10 [0, 1, 2, 3, 4, 5, 6, 7, 8, 9]) c"

fun decimal :: "string \<Rightarrow> nat \<Rightarrow> nat option" where
  "decimal [] acc = Some acc"
| "decimal (c # cs) acc =
     (case digit_val c of None \<Rightarrow> None | Some d \<Rightarrow> decimal cs (10 * acc + d))"

definition sql_numeric :: "string \<Rightarrow> nat option" where
  "sql_numeric key = (if key = [] then None else decimal key 0)"

definition sql_compare :: "string \<Rightarrow> nat \<Rightarrow> string \<Rightarrow> bool" where
  "sql_compare operator d key =
     (case sql_numeric key of
        Some k \<Rightarrow> (if operator = ''<'' then d < k else if operator = ''>'' then k < d else d = k)
      | None \<Rightarrow> operator = ''<'')"

text \<open>
  \<^verbatim>\<open>SELECT * from objects where catalog = "c" and designation op "key" order by
  designation [desc]\<close>, then \<^verbatim>\<open>fetchone()\<close>: the first row of the result, or \<^verbatim>\<open>None\<close>.
  Without \<^verbatim>\<open>order by\<close> the rows come in table order.
\<close>

definition fetchone :: "'a list \<Rightarrow> 'a option" where
  "fetchone rows = (case rows of [] \<Rightarrow> None | r # _ \<Rightarrow> Some r)"

definition select_where :: "objects_table \<Rightarrow> string \<Rightarrow> string \<Rightarrow> string \<Rightarrow> objects_table" where
  "select_where db c operator key =
     filter (\<lambda>r. catalog r = c \<and> sql_compare operator (designation r) key) db"

definition order_by_designation :: "string \<Rightarrow> objects_table \<Rightarrow> objects_table" where
  "order_by_designation sort_order rows =
     (if sort_order = ''desc'' then rev (sort_key designation rows)
      else sort_key designation rows)"

section \<open>The catalog-search screen: class UICatalog of uimodules.py\<close>

record ui_catalog =
  catalog_index :: nat
  designator :: "string list"
  cat_object :: "catalog_object option"
  object_text :: "string list"

text \<open>\<^verbatim>\<open>self.__catalogs = ["NGC", " IC", "Mes"]\<close>\<close>

definition catalogs :: "string list" where
  "catalogs = [''NGC'', '' IC'', ''Mes'']"

text \<open>\<^verbatim>\<open>UICatalog.__init__\<close>\<close>

definition UICatalog_init :: ui_catalog where
  "UICatalog_init =
     \<lparr>catalog_index = 0, designator = replicate 4 ''-'', cat_object = None,
      object_text = [''No Object Found'']\<rparr>"

text \<open>
  \<^verbatim>\<open>UICatalog.update_object_text\<close>; \<open>OBJ_TYPES\<close> is the table of the module
  \<^verbatim>\<open>obj_types\<close>, a parameter here.
\<close>

definition update_object_text :: "(string \<rightharpoonup> string) \<Rightarrow> ui_catalog \<Rightarrow> ui_catalog" where
  "update_object_text OBJ_TYPES s =
     (case cat_object s of
        None \<Rightarrow> s\<lparr>object_text := [''No Object Found'']\<rparr>
      | Some obj \<Rightarrow>
          (let object_type = (case OBJ_TYPES (obj_type obj) of None \<Rightarrow> obj_type obj | Some t \<Rightarrow> t)
           in s\<lparr>object_text :=
                 [object_type @ replicate (18 - length object_type) CHR '' '' @ const obj,
                  ''This is line Two'']\<rparr>))"

text \<open>\<^verbatim>\<open>UICatalog.key_d\<close>: the next catalog, with an empty designator of its width.\<close>

definition key_d :: "(string \<rightharpoonup> string) \<Rightarrow> ui_catalog \<Rightarrow> ui_catalog" where
  "key_d OBJ_TYPES s =
     (let i1 = catalog_index s + 1;
          i2 = (if i1 \<ge> length catalogs then 0 else i1)
      in update_object_text OBJ_TYPES
           (s\<lparr>catalog_index := i2,
              designator := (if i2 = 2 then replicate 3 ''-'' else replicate 4 ''-''),
              cat_object := None\<rparr>))"

text \<open>
  The \<^verbatim>\<open>while go\<close> loop of \<^verbatim>\<open>key_number\<close>: the slot at \<open>index\<close> becomes a dash, the
  index moves on, and the loop stops at the end of the buffer or at a slot that holds
  neither \<^verbatim>\<open>"0"\<close> nor \<^verbatim>\<open>"-"\<close>. The loop is entered at index 0 of a non-empty buffer, so
  the write is always in range.
\<close>

function key_number_loop :: "string list \<Rightarrow> nat \<Rightarrow> string list" where
  "key_number_loop des index =
     (if index + 1 \<ge> length des \<or> (des[index := ''-'']) ! (index + 1) \<notin> set [''0'', ''-'']
      then des[index := ''-'']
      else key_number_loop (des[index := ''-'']) (index + 1))"
  by pat_completeness auto
termination
  by (relation "measure (\<lambda>(des, index). length des - index)") auto

declare key_number_loop.simps [simp del]

text \<open>
  \<^verbatim>\<open>"".join(self.designator).replace("-", "")\<close> and
  \<^verbatim>\<open>self.__catalogs[self.catalog_index].strip()[0]\<close>.
\<close>

definition joined_designator :: "string list \<Rightarrow> string" where
  "joined_designator des = remove_dashes (concat des)"

definition catalog_code :: "nat \<Rightarrow> py_error + string" where
  "catalog_code i =
     (if i < length catalogs then
        (case strip (catalogs ! i) of [] \<Rightarrow> Inl IndexError | c # _ \<Rightarrow> Inr [c])
      else Inl IndexError)"

text \<open>\<^verbatim>\<open>UICatalog.key_number\<close>\<close>

definition key_number ::
  "objects_table \<Rightarrow> (string \<rightharpoonup> string) \<Rightarrow> nat \<Rightarrow> ui_catalog \<Rightarrow> py_error + ui_catalog" where
  "key_number db OBJ_TYPES number s =
     (let d1 = tl (designator s) @ [str number];
          d2 = (if hd d1 \<in> set [''0'', ''-''] then key_number_loop d1 0 else d1)
      in case catalog_code (catalog_index s) of
           Inl e \<Rightarrow> Inl e
         | Inr c \<Rightarrow>
             Inr (update_object_text OBJ_TYPES
                    (s\<lparr>designator := d2,
                       cat_object := fetchone (select_where db c ''='' (joined_designator d2))\<rparr>)))"

text \<open>
  \<^verbatim>\<open>UICatalog.scroll_obj\<close>; \<^verbatim>\<open>key_up\<close> passes \<^verbatim>\<open>"<"\<close> and \<^verbatim>\<open>key_down\<close> passes
  \<^verbatim>\<open>">"\<close>.
\<close>

definition scroll_obj ::
  "objects_table \<Rightarrow> (string \<rightharpoonup> string) \<Rightarrow> string \<Rightarrow> ui_catalog \<Rightarrow> py_error + ui_catalog" where
  "scroll_obj db OBJ_TYPES direction s =
     (let sort_order = (if direction = ''<'' then ''desc'' else []);
          key = joined_designator (designator s)
      in case catalog_code (catalog_index s) of
           Inl e \<Rightarrow> Inl e
         | Inr c \<Rightarrow>
             (case fetchone (order_by_designation sort_order (select_where db c direction key)) of
                None \<Rightarrow> Inr s
              | Some tmp_obj \<Rightarrow>
                  (let desig = map (\<lambda>ch. [ch]) (str (designation tmp_obj));
                       width = (if catalog_index s = 2 then 3 else 4)
                   in Inr (update_object_text OBJ_TYPES
                             (s\<lparr>cat_object := Some tmp_obj,
                                designator := replicate (width - length desig) ''-'' @ desig\<rparr>)))))"

definition key_up :: "objects_table \<Rightarrow> (string \<rightharpoonup> string) \<Rightarrow> ui_catalog \<Rightarrow> py_error + ui_catalog" where
  "key_up db OBJ_TYPES s = scroll_obj db OBJ_TYPES ''<'' s"

definition key_down :: "objects_table \<Rightarrow> (string \<rightharpoonup> string) \<Rightarrow> ui_catalog \<Rightarrow> py_error + ui_catalog" where
  "key_down db OBJ_TYPES s = scroll_obj db OBJ_TYPES ''>'' s"

text \<open>A sequence of digit keys, pressed one after the other.\<close>

fun key_numbers ::
  "objects_table \<Rightarrow> (string \<rightharpoonup> string) \<Rightarrow> nat list \<Rightarrow> ui_catalog \<Rightarrow> py_error + ui_catalog" where
  "key_numbers db OBJ_TYPES [] s = Inr s"
| "key_numbers db OBJ_TYPES (n # ns) s =
     (case key_number db OBJ_TYPES n s of
        Inl e \<Rightarrow> Inl e
      | Inr s' \<Rightarrow> key_numbers db OBJ_TYPES ns s')"

text \<open>
  The leading-placeholder collapse in the specification's words: the maximal leading run
  of slots that hold \<^verbatim>\<open>"0"\<close> or \<^verbatim>\<open>"-"\<close> is replaced by dashes, and the rest of the buffer,
  from the first slot with another content, is kept.
\<close>

definition collapse_leading :: "string list \<Rightarrow> string list" where
  "collapse_leading des =
     replicate (length (takeWhile (\<lambda>x. x = ''0'' \<or> x = ''-'') des)) ''-''
     @ dropWhile (\<lambda>x. x = ''0'' \<or> x = ''-'') des"

text \<open>
  The neighbour of a key in the specification's words: the row of catalog \<open>c\<close> with the
  smallest designation above \<open>k\<close> (forward), or with the largest designation below \<open>k\<close>
  (backward).
\<close>

definition forward_neighbor :: "objects_table \<Rightarrow> string \<Rightarrow> nat \<Rightarrow> catalog_object \<Rightarrow> bool" where
  "forward_neighbor db c k r =
     (r \<in> set db \<and> catalog r = c \<and> k < designation r
      \<and> (\<forall>r' \<in> set db. catalog r' = c \<and> k < designation r' \<longrightarrow> designation r \<le> designation r'))"

definition backward_neighbor :: "objects_table \<Rightarrow> string \<Rightarrow> nat \<Rightarrow> catalog_object \<Rightarrow> bool" where
  "backward_neighbor db c k r =
     (r \<in> set db \<and> catalog r = c \<and> designation r < k
      \<and> (\<forall>r' \<in> set db. catalog r' = c \<and> designation r' < k \<longrightarrow> designation r' \<le> designation r))"

text \<open>
  A store whose catalog \<^verbatim>\<open>N\<close> has the designations 1, 5 and 9, in no particular order,
  beside a row of another catalog.
\<close>

definition example_db :: objects_table where
  "example_db =
     [\<lparr>catalog = ''N'', designation = 5, obj_type = ''Gx'', const = ''And'', ra = 10, dec = 41\<rparr>,
      \<lparr>catalog = ''N'', designation = 9, obj_type = ''Gx'', const = ''Peg'', ra = 2, dec = 23\<rparr>,
      \<lparr>catalog = ''I'', designation = 7, obj_type = ''OC'', const = ''Cas'', ra = 3, dec = 60\<rparr>,
      \<lparr>catalog = ''N'', designation = 1, obj_type = ''Gx'', const = ''Peg'', ra = 1, dec = 27\<rparr>]"

section \<open>The push-to screen: class UILocate of ui/locate.py\<close>

text \<open>
  What the positioning process publishes, read through \<^verbatim>\<open>self.shared_state\<close>: the solver's
  solution (whose \<^verbatim>\<open>Az\<close> and \<^verbatim>\<open>Alt\<close> are \<^verbatim>\<open>None\<close> until a position is solved), the
  observer's location and the time. A missing value is \<^verbatim>\<open>None\<close>.
\<close>

record solution_dict =
  Az :: "real option"
  Alt :: "real option"

record location_dict =
  lat :: real
  lon :: real
  altitude :: real

record shared_state =
  solution :: "solution_dict option"
  location :: "location_dict option"
  datetime :: "int option"

text \<open>
  The answer of \<^verbatim>\<open>obslist.read_list\<close>, a dictionary with the keys \<^verbatim>\<open>result\<close>,
  \<^verbatim>\<open>message\<close>, \<^verbatim>\<open>catalog\<close> and \<^verbatim>\<open>objects_parsed\<close>.
\<close>

record load_results =
  lr_result :: string
  lr_message :: string
  lr_catalog :: "catalog_object list"
  lr_objects_parsed :: nat

text \<open>
  The collaborators of the screen, which are not in the source: the table of the module
  \<^verbatim>\<open>obj_types\<close>, the astrometry conversion (\<^verbatim>\<open>set_location\<close> followed by
  \<^verbatim>\<open>radec_to_altaz\<close>, which returns altitude and azimuth) and the persistence store's
  \<^verbatim>\<open>read_list\<close>.
\<close>

record collaborators =
  obj_types_table :: "string \<rightharpoonup> string"
  radec_to_altaz :: "location_dict \<Rightarrow> real \<Rightarrow> real \<Rightarrow> int \<Rightarrow> real \<times> real"
  read_list :: "string \<Rightarrow> load_results"

text \<open>
  What \<^verbatim>\<open>update\<close> hands to the display: the \<^verbatim>\<open>No Target Set\<close> screen, or the target's
  name, the two lines of the list position (when the cursor is set), the line of the object
  text, and the pointing instructions: the placeholder \<^verbatim>\<open>---.-\<close> over \<^verbatim>\<open>--.-\<close>, or for
  each axis the direction of the arrow (true for a delta that is not negative) and the
  magnitude printed.
\<close>

datatype pointing_display = Placeholder | Pointing bool real bool real

datatype frame =
  NoTargetSet
| TargetFrame string "(string \<times> string) option" string pointing_display

text \<open>
  The screen's own attributes together with the entries of \<^verbatim>\<open>self.ui_state\<close> it uses.
  \<open>messages\<close> collects the texts given to \<^verbatim>\<open>self.message\<close>, \<open>written\<close> the calls of
  \<^verbatim>\<open>obslist.write_list\<close>; \<open>uuid\<close> and \<open>ss_count\<close> are attributes of the base class.
  The lists are compared by content, as \<^verbatim>\<open>==\<close> does; the operations of this screen
  assign them and never change one in place.
\<close>

record ui_locate =
  target_index :: "nat option"
  active_list :: "catalog_object list"
  history_list :: "catalog_object list"
  observing_list :: "catalog_object list"
  target :: "catalog_object option"
  locate_object_text :: "string list"
  messages :: "string list"
  load_value :: string
  obs_list_write_index :: nat
  written :: "(string \<times> catalog_object list) list"
  switch_to :: "string option"
  uuid :: string
  ss_count :: nat

definition message :: "string \<Rightarrow> ui_locate \<Rightarrow> ui_locate" where
  "message txt s = s\<lparr>messages := messages s @ [txt]\<rparr>"

text \<open>
  Format specifications: \<^verbatim>\<open>{x: <14}\<close> pads on the right, \<^verbatim>\<open>{x : >9}\<close> pads on the left,
  \<^verbatim>\<open>{n:02d}\<close> pads a number with zeros to two digits.
\<close>

definition ljust :: "nat \<Rightarrow> string \<Rightarrow> string" where
  "ljust w x = x @ replicate (w - length x) CHR '' ''"

definition rjust :: "nat \<Rightarrow> string \<Rightarrow> string" where
  "rjust w x = replicate (w - length x) CHR '' '' @ x"

definition format_02d :: "nat \<Rightarrow> string" where
  "format_02d n = replicate (2 - length (str n)) CHR ''0'' @ str n"

text \<open>Truthiness of a float that may be \<^verbatim>\<open>None\<close>: neither \<^verbatim>\<open>None\<close> nor zero.\<close>

definition truthy :: "real option \<Rightarrow> bool" where
  "truthy v = (case v of None \<Rightarrow> False | Some x \<Rightarrow> x \<noteq> 0)"

text \<open>\<^verbatim>\<open>UILocate.update_object_text\<close>\<close>

definition update_object_text_locate :: "collaborators \<Rightarrow> ui_locate \<Rightarrow> ui_locate" where
  "update_object_text_locate env s =
     (case target s of
        None \<Rightarrow> s\<lparr>locate_object_text := [''No Object Found'']\<rparr>
      | Some t \<Rightarrow>
          (let object_type =
                 (case obj_types_table env (obj_type t) of None \<Rightarrow> obj_type t | Some l \<Rightarrow> l)
           in s\<lparr>locate_object_text := [ljust 14 object_type @ '' '' @ const t]\<rparr>))"

text \<open>
  \<^verbatim>\<open>UILocate.save_list\<close>, with the value it returns. The guard looks at the active list,
  whichever list the option selects.
\<close>

definition save_list :: "string \<Rightarrow> ui_locate \<Rightarrow> ui_locate \<times> bool" where
  "save_list option s =
     (let s0 = s\<lparr>load_value := []\<rparr>
      in if option = ''CANCEL'' then (s0, False)
         else if length (active_list s0) = 0 then (message ''No objects'' s0, False)
         else
           (let filename = uuid s0 @ ''_'' @ option @ ''_'' @ format_02d (ss_count s0);
                s1 = (if option = ''History''
                      then s0\<lparr>written := written s0 @ [(filename, history_list s0)]\<rparr>
                      else s0\<lparr>written := written s0 @ [(filename, observing_list s0)]\<rparr>);
                s2 = s1\<lparr>obs_list_write_index := obs_list_write_index s1 + 1\<rparr>
            in (message (''Saved list - '' @ format_02d (ss_count s2)) s2, True)))"

text \<open>\<^verbatim>\<open>UILocate.load_list\<close>, with the value it returns.\<close>

definition load_list :: "collaborators \<Rightarrow> string \<Rightarrow> ui_locate \<Rightarrow> ui_locate \<times> bool" where
  "load_list env option s =
     (let s0 = s\<lparr>load_value := []\<rparr>
      in if option = ''CANCEL'' then (s0, False)
         else
           (let load_results = read_list env option
            in if lr_result load_results = ''error''
               then (message (''Err! '' @ lr_message load_results) s0, False)
               else
                 (let object_count = length (lr_catalog load_results)
                  in case lr_catalog load_results of
                       [] \<Rightarrow> (message ''No matches'' s0, False)
                     | first # _ \<Rightarrow>
                         (let s1 = s0\<lparr>observing_list := lr_catalog load_results\<rparr>;
                              s2 = s1\<lparr>active_list := observing_list s1\<rparr>;
                              s3 = s2\<lparr>target_index := Some 0\<rparr>;
                              s4 = update_object_text_locate env (s3\<lparr>target := Some first\<rparr>)
                          in (message (''Loaded '' @ str object_count @ '' of ''
                                       @ str (lr_objects_parsed load_results)) s4, True)))))"

text \<open>
  \<^verbatim>\<open>UILocate.key_b\<close>. The cursor is cleared first, and it is the cursor that tells the
  end of the method whether a switch took place. The index taken is 0 of a non-empty list,
  or the last of one.
\<close>

definition key_b :: "collaborators \<Rightarrow> ui_locate \<Rightarrow> ui_locate" where
  "key_b env s =
     (let s0 = s\<lparr>target_index := None\<rparr>;
          s1 = (if active_list s0 = history_list s0 then
                  (if length (observing_list s0) > 0
                   then s0\<lparr>active_list := observing_list s0, target_index := Some 0\<rparr>
                   else message ''No Obs List'' s0)
                else
                  (if length (history_list s0) > 0
                   then s0\<lparr>active_list := history_list s0,
                          target_index := Some (length (history_list s0) - 1)\<rparr>
                   else message ''No History'' s0))
      in case target_index s1 of
           None \<Rightarrow> s1
         | Some i \<Rightarrow> update_object_text_locate env (s1\<lparr>target := Some (active_list s1 ! i)\<rparr>))"

text \<open>\<^verbatim>\<open>UILocate.key_enter\<close>\<close>

definition key_enter_locate :: "ui_locate \<Rightarrow> ui_locate" where
  "key_enter_locate s = s\<lparr>switch_to := Some ''UICatalog''\<rparr>"

text \<open>
  \<^verbatim>\<open>UILocate.aim_degrees\<close>. The method returns the pair of deltas, the pair
  \<^verbatim>\<open>(None, None)\<close> of the outer \<^verbatim>\<open>else\<close>, or, where the inner \<^verbatim>\<open>if solution["Alt"]\<close>
  fails, nothing at all, which is the bare \<^verbatim>\<open>None\<close> (the inner \<open>None\<close> of the result).
  Subscripting a missing target and subtracting a missing azimuth raise \<^verbatim>\<open>TypeError\<close>.
\<close>

definition aim_degrees ::
  "collaborators \<Rightarrow> shared_state \<Rightarrow> ui_locate \<Rightarrow> py_error + (real option \<times> real option) option" where
  "aim_degrees env sh s =
     (case location sh of
        None \<Rightarrow> Inr (Some (None, None))
      | Some loc \<Rightarrow>
          (case datetime sh of
             None \<Rightarrow> Inr (Some (None, None))
           | Some dt \<Rightarrow>
               (case solution sh of
                  None \<Rightarrow> Inr (Some (None, None))
                | Some sol \<Rightarrow>
                    if truthy (Alt sol) then
                      (case target s of
                         None \<Rightarrow> Inl TypeError
                       | Some t \<Rightarrow>
                           (case radec_to_altaz env loc (ra t) (dec t) dt of
                              (target_alt, target_az) \<Rightarrow>
                                (case Az sol of
                                   None \<Rightarrow> Inl TypeError
                                 | Some az \<Rightarrow>
                                     Inr (Some
                                       (Some (normalize_signed_180 (binary64 (target_az - az))),
                                        Some (normalize_signed_180
                                                (binary64 (target_alt - the (Alt sol)))))))))
                    else Inr None)))"

text \<open>
  \<^verbatim>\<open>UILocate.update\<close>: the frame handed to the display, or the exception raised before
  anything is displayed. Unpacking the bare \<^verbatim>\<open>None\<close> of \<^verbatim>\<open>aim_degrees\<close> into
  \<^verbatim>\<open>point_az, point_alt\<close> raises \<^verbatim>\<open>TypeError\<close>. The guard of the pointing instructions
  is \<^verbatim>\<open>if not point_az\<close>.
\<close>

definition update :: "collaborators \<Rightarrow> shared_state \<Rightarrow> ui_locate \<Rightarrow> py_error + frame" where
  "update env sh s =
     (case target s of
        None \<Rightarrow> Inr NoTargetSet
      | Some t \<Rightarrow>
          (let line = catalog t @ str (designation t);
               index_lines =
                 (case target_index s of
                    None \<Rightarrow> None
                  | Some i \<Rightarrow>
                      Some (rjust 9 (str (i + 1) @ ''/'' @ str (length (active_list s))),
                            rjust 9 (if active_list s = history_list s then ''Hist'' else ''Obsv'')))
           in case locate_object_text s of
                [] \<Rightarrow> Inl IndexError
              | id_line # _ \<Rightarrow>
                  (case aim_degrees env sh s of
                     Inl e \<Rightarrow> Inl e
                   | Inr None \<Rightarrow> Inl TypeError
                   | Inr (Some (point_az, point_alt)) \<Rightarrow>
                       if truthy point_az then
                         (case point_alt of
                            None \<Rightarrow> Inl TypeError
                          | Some alt \<Rightarrow>
                              Inr (TargetFrame line index_lines id_line
                                     (Pointing (the point_az \<ge> 0)
                                        (if the point_az \<ge> 0 then the point_az
                                         else the point_az * - 1)
                                        (alt \<ge> 0) (if alt \<ge> 0 then alt else alt * - 1))))
                       else Inr (TargetFrame line index_lines id_line Placeholder))))"

text \<open>
  \<^verbatim>\<open>list.index(x)\<close>: the first position of an element equal to \<open>x\<close>, or \<^verbatim>\<open>ValueError\<close>.
\<close>

fun index_of :: "'a list \<Rightarrow> 'a \<Rightarrow> py_error + nat" where
  "index_of [] x = Inl ValueError"
| "index_of (y # ys) x =
     (if y = x then Inr 0
      else case index_of ys x of Inl e \<Rightarrow> Inl e | Inr i \<Rightarrow> Inr (Suc i))"

text \<open>
  \<^verbatim>\<open>UILocate.active\<close>: the state it leaves and the outcome of its final \<^verbatim>\<open>update\<close>.
  A target of \<^verbatim>\<open>None\<close> is in no list.
\<close>

definition active ::
  "collaborators \<Rightarrow> shared_state \<Rightarrow> ui_locate \<Rightarrow> ui_locate \<times> (py_error + frame)" where
  "active env sh s =
     (let found = (case target s of
                     None \<Rightarrow> Inl ValueError
                   | Some t \<Rightarrow> index_of (active_list s) t);
          s1 = (case found of
                  Inl e \<Rightarrow> s\<lparr>target_index := None\<rparr>
                | Inr i \<Rightarrow> s\<lparr>target_index := Some i\<rparr>);
          s2 = update_object_text_locate env s1
      in (s2, update env sh s2))"

text \<open>
  \<^verbatim>\<open>UILocate.scroll_target_history\<close>: the state it leaves and, when the cursor is set,
  the outcome of the call. The index is moved and clamped as an integer; reading the
  active list at the clamped index raises \<^verbatim>\<open>IndexError\<close> when the list is empty, after
  the cursor has been written.
\<close>

definition scroll_target_history ::
  "collaborators \<Rightarrow> shared_state \<Rightarrow> int \<Rightarrow> ui_locate
     \<Rightarrow> ui_locate \<times> (py_error + frame) option" where
  "scroll_target_history env sh direction s =
     (case target_index s of
        None \<Rightarrow> (s, None)
      | Some i \<Rightarrow>
          (let i1 = int i + direction;
               i2 = (if i1 \<ge> int (length (active_list s)) then int (length (active_list s)) - 1
                     else i1);
               i3 = (if i2 < 0 then 0 else i2);
               s1 = s\<lparr>target_index := Some (nat i3)\<rparr>
           in if nat i3 < length (active_list s1) then
                (let s2 = update_object_text_locate env
                            (s1\<lparr>target := Some (active_list s1 ! nat i3)\<rparr>)
                 in (s2, Some (update env sh s2)))
              else (s1, Some (Inl IndexError))))"

definition key_up_locate ::
  "collaborators \<Rightarrow> shared_state \<Rightarrow> ui_locate \<Rightarrow> ui_locate \<times> (py_error + frame) option" where
  "key_up_locate env sh s = scroll_target_history env sh (- 1) s"

definition key_down_locate ::
  "collaborators \<Rightarrow> shared_state \<Rightarrow> ui_locate \<Rightarrow> ui_locate \<times> (py_error + frame) option" where
  "key_down_locate env sh s = scroll_target_history env sh 1 s"

text \<open>
  The invariant of the active target state: a cursor that is set is a position of the
  active list, and the shared target is the element there.
\<close>

definition cursor_consistent :: "ui_locate \<Rightarrow> bool" where
  "cursor_consistent s =
     (case target_index s of
        None \<Rightarrow> True
      | Some i \<Rightarrow> i < length (active_list s) \<and> target s = Some (active_list s ! i))"

text \<open>
  The states of the screen: \<^verbatim>\<open>__init__\<close> leaves the cursor unset, whatever the shared
  lists and target hold, and each key or menu callback leads from a state to the next,
  whatever the collaborators answer.
\<close>

inductive reachable :: "ui_locate \<Rightarrow> bool" where
  initial: "target_index s = None \<Longrightarrow> reachable s"
| switch: "reachable s \<Longrightarrow> reachable (key_b env s)"
| scroll_up: "reachable s \<Longrightarrow> reachable (fst (key_up_locate env sh s))"
| scroll_down: "reachable s \<Longrightarrow> reachable (fst (key_down_locate env sh s))"
| load: "reachable s \<Longrightarrow> reachable (fst (load_list env option s))"
| save: "reachable s \<Longrightarrow> reachable (fst (save_list option s))"
| enter: "reachable s \<Longrightarrow> reachable (key_enter_locate s)"
| reentry: "reachable s \<Longrightarrow> reachable (fst (active env sh s))"

text \<open>Collaborators, published positions and screen states for the examples.\<close>

definition example_env :: collaborators where
  "example_env =
     \<lparr>obj_types_table = Map.empty,
      radec_to_altaz = (\<lambda>loc r d t. (15, 90)),
      read_list = (\<lambda>name. \<lparr>lr_result = ''error'', lr_message = ''no file'', lr_catalog = [],
                            lr_objects_parsed = 0\<rparr>)\<rparr>"

definition example_object :: catalog_object where
  "example_object =
     \<lparr>catalog = ''N'', designation = 5, obj_type = ''Gx'', const = ''And'', ra = 10, dec = 41\<rparr>"

definition example_locate :: ui_locate where
  "example_locate =
     \<lparr>target_index = Some 0, active_list = [example_object], history_list = [example_object],
      observing_list = [], target = Some example_object,
      locate_object_text = [''Gx             And''], messages = [], load_value = [],
      obs_list_write_index = 0, written = [], switch_to = None, uuid = ''u'', ss_count = 0\<rparr>"

definition example_shared :: "real \<Rightarrow> real \<Rightarrow> shared_state" where
  "example_shared az alt =
     \<lparr>solution = Some \<lparr>Az = Some az, Alt = Some alt\<rparr>,
      location = Some \<lparr>lat = 50, lon = 8, altitude = 100\<rparr>,
      datetime = Some 0\<rparr>"

section \<open>Properties of the pointing normalisation\<close>

lemma round_half_even_ge: "of_int N \<le> q \<Longrightarrow> N \<le> round_half_even q"
proof -
  assume "of_int N \<le> q"
  then have "N \<le> \<lfloor>q\<rfloor>" by (simp add: le_floor_iff)
  then show ?thesis by (auto simp add: round_half_even_def)
qed

lemma round_half_even_le: "q \<le> of_int N \<Longrightarrow> round_half_even q \<le> N"
proof -
  assume h: "q \<le> of_int N"
  show ?thesis
  proof (cases "q = of_int N")
    case True
    then show ?thesis by (simp add: round_half_even_def)
  next
    case False
    with h have "q < of_int N" by simp
    then have "\<lfloor>q\<rfloor> < N" by (simp add: floor_less_iff)
    then show ?thesis by (auto simp add: round_half_even_def)
  qed
qed

lemma round_half_even_of_int: "round_half_even (of_int n) = n"
  by (simp add: round_half_even_def)


lemma exponent_le:
  assumes "\<bar>x\<bar> < 2 ^ n"
  shows "exponent x \<le> int n - 1"
proof -
  have "\<bar>x\<bar> * 2 ^ emin < 2 ^ n * 2 ^ emin"
    using assms by simp
  moreover have "of_int \<lfloor>\<bar>x\<bar> * 2 ^ emin\<rfloor> \<le> \<bar>x\<bar> * 2 ^ emin"
    by (rule of_int_floor_le)
  ultimately have "of_int \<lfloor>\<bar>x\<bar> * 2 ^ emin\<rfloor> < (2::real) ^ (n + emin)"
    unfolding power_add by linarith
  then have "\<lfloor>\<bar>x\<bar> * 2 ^ emin\<rfloor> < 2 ^ (n + emin)"
    by (metis of_int_less_numeral_power_cancel_iff)
  moreover have "nat (int (n + emin)) = n + emin"
    by simp
  ultimately have "bitlen \<lfloor>\<bar>x\<bar> * 2 ^ emin\<rfloor> \<le> int (n + emin)"
    unfolding bitlen_le_iff_power by simp
  then show ?thesis
    by (simp add: exponent_def)
qed

lemma exponent_ge:
  assumes "2 ^ n \<le> \<bar>x\<bar>"
  shows "int n \<le> exponent x"
proof -
  have "(2::real) ^ (n + emin) \<le> \<bar>x\<bar> * 2 ^ emin"
    using assms by (simp add: power_add)
  then have "of_int (2 ^ (n + emin)) \<le> \<bar>x\<bar> * 2 ^ emin"
    by simp
  then have "2 ^ (n + emin) \<le> \<lfloor>\<bar>x\<bar> * 2 ^ emin\<rfloor>"
    by (simp only: le_floor_iff)
  moreover have "nat (int (n + emin + 1)) - 1 = n + emin"
    by simp
  ultimately have "int (n + emin + 1) \<le> bitlen \<lfloor>\<bar>x\<bar> * 2 ^ emin\<rfloor>"
    unfolding bitlen_ge_iff_power by simp
  then show ?thesis
    by (simp add: exponent_def)
qed


lemma ulp_pos: "0 < ulp x"
  by (simp add: ulp_def)

lemma ulp_inverse_nat:
  assumes "\<bar>x\<bar> < 2 ^ 53"
  shows "\<exists>k::nat. ulp x = 1 / 2 ^ k"
proof -
  have "exponent x \<le> 52"
    using exponent_le [OF assms] by simp
  then have "max (exponent x - 52) (- int emin) \<le> 0"
    by simp
  then obtain k :: nat where k: "max (exponent x - 52) (- int emin) = - int k"
    by (metis nonpos_int_cases)
  show ?thesis
    unfolding ulp_def k by (auto simp add: power_int_minus field_simps)
qed

lemma binary64_le:
  assumes "y \<le> of_int b" "\<bar>y\<bar> < 2 ^ 53"
  shows "binary64 y \<le> of_int b"
proof -
  from ulp_inverse_nat [OF assms(2)] obtain k :: nat where k: "ulp y = 1 / 2 ^ k"
    by blast
  have "y / ulp y \<le> of_int (b * 2 ^ k)"
    using assms(1) by (simp add: k)
  then have "round_half_even (y / ulp y) \<le> b * 2 ^ k"
    by (rule round_half_even_le)
  then have "real_of_int (round_half_even (y / ulp y)) \<le> of_int b * 2 ^ k"
    by (metis of_int_le_iff of_int_mult of_int_numeral of_int_power)
  then show ?thesis
    by (simp add: binary64_def k field_simps)
qed

lemma binary64_ge:
  assumes "of_int b \<le> y" "\<bar>y\<bar> < 2 ^ 53"
  shows "of_int b \<le> binary64 y"
proof -
  from ulp_inverse_nat [OF assms(2)] obtain k :: nat where k: "ulp y = 1 / 2 ^ k"
    by blast
  have "of_int (b * 2 ^ k) \<le> y / ulp y"
    using assms(1) by (simp add: k)
  then have "b * 2 ^ k \<le> round_half_even (y / ulp y)"
    by (rule round_half_even_ge)
  then have "of_int b * 2 ^ k \<le> real_of_int (round_half_even (y / ulp y))"
    by (metis of_int_le_iff of_int_mult of_int_numeral of_int_power)
  then show ?thesis
    by (simp add: binary64_def k field_simps)
qed

lemma binary64_of_int:
  assumes "\<bar>n\<bar> < 2 ^ 53"
  shows "binary64 (of_int n) = of_int n"
proof -
  have "\<bar>real_of_int n\<bar> < 2 ^ 53"
    using assms by (metis of_int_abs of_int_less_numeral_power_cancel_iff)
  then have "binary64 (of_int n) \<le> of_int n" "of_int n \<le> binary64 (of_int n)"
    by (simp_all add: binary64_le binary64_ge)
  then show ?thesis
    by simp
qed


lemma ulp_inverse_nat_ge:
  assumes "\<bar>x\<bar> < 2 ^ n" "n \<le> 53"
  shows "\<exists>k::nat. 53 - n \<le> k \<and> ulp x = 1 / 2 ^ k"
proof -
  define K where "K = max (exponent x - 52) (- int emin)"
  define k where "k = nat (- K)"
  have "exponent x \<le> int n - 1"
    by (rule exponent_le [OF assms(1)])
  with assms(2) have "K \<le> - int (53 - n)"
    by (simp add: K_def emin_def)
  then have k: "K = - int k" "53 - n \<le> k"
    by (simp_all add: k_def)
  have "ulp x = 1 / 2 ^ k"
    unfolding ulp_def K_def [symmetric] k(1) by (simp add: power_int_minus field_simps)
  with k(2) show ?thesis
    by blast
qed

lemma binary64_dyadic:
  assumes "\<bar>y\<bar> < 2 ^ n" "n \<le> 53" "y * 2 ^ (53 - n) = of_int m"
  shows "binary64 y = y"
proof -
  from ulp_inverse_nat_ge [OF assms(1,2)] obtain k :: nat
    where k: "53 - n \<le> k" "ulp y = 1 / 2 ^ k"
    by blast
  then obtain d where d: "k = (53 - n) + d"
    using le_Suc_ex by blast
  have "y / ulp y = of_int (m * 2 ^ d)"
    using assms(3) by (simp add: k(2) d power_add mult.assoc [symmetric])
  then have "binary64 y = of_int (m * 2 ^ d) * ulp y"
    by (simp only: binary64_def round_half_even_of_int)
  also have "\<dots> = y / ulp y * ulp y"
    using \<open>y / ulp y = of_int (m * 2 ^ d)\<close> by simp
  also have "\<dots> = y"
    using ulp_pos [of y] by simp
  finally show ?thesis .
qed

lemma fmod_360_bounds:
  "(0 \<le> a \<longrightarrow> 0 \<le> fmod a 360 \<and> fmod a 360 < 360)
   \<and> (a < 0 \<longrightarrow> - 360 < fmod a 360 \<and> fmod a 360 \<le> 0)"
proof -
  define q where "q = a / 360"
  define F :: real where "F = of_int \<lfloor>q\<rfloor>"
  define C :: real where "C = of_int \<lceil>q\<rceil>"
  have a: "a = 360 * q"
    by (simp add: q_def)
  have f1: "F \<le> q"
    unfolding F_def by (rule of_int_floor_le)
  have f2: "q < F + 1"
    unfolding F_def using floor_correct [of q] by simp
  have c1: "q \<le> C"
    unfolding C_def by (rule le_of_int_ceiling)
  have c2: "C - 1 < q"
    unfolding C_def using ceiling_correct [of q] by simp
  have nonneg: "0 \<le> fmod a 360 \<and> fmod a 360 < 360" if "0 \<le> a"
  proof -
    from that have "0 \<le> q" by (simp add: q_def)
    then have "fmod a 360 = 360 * (q - F)"
      by (simp add: fmod_def q_def [symmetric] a F_def algebra_simps)
    with f1 f2 show ?thesis by simp
  qed
  have neg: "- 360 < fmod a 360 \<and> fmod a 360 \<le> 0" if "a < 0"
  proof -
    from that have "\<not> 0 \<le> q" by (simp add: q_def)
    then have "fmod a 360 = 360 * (q - C)"
      by (simp add: fmod_def q_def [symmetric] a C_def algebra_simps)
    with c1 c2 show ?thesis by simp
  qed
  from nonneg neg show ?thesis
    by blast
qed


lemma binary64_between:
  assumes "of_int lo \<le> y" "y \<le> of_int hi" "- (2 ^ 53) < lo" "hi < 2 ^ 53"
  shows "of_int lo \<le> binary64 y \<and> binary64 y \<le> of_int hi"
proof -
  have "- (2 ^ 53) < real_of_int lo"
    using assms(3) by (metis of_int_less_iff of_int_minus of_int_numeral of_int_power)
  moreover have "real_of_int hi < 2 ^ 53"
    using assms(4) by (metis of_int_less_iff of_int_numeral of_int_power)
  moreover note assms(1,2)
  ultimately have "\<bar>y\<bar> < 2 ^ 53"
    by (simp only: abs_less_iff) linarith
  with assms(1,2) show ?thesis
    by (simp only: binary64_ge binary64_le)
qed

lemma py_mod_360_range: "0 \<le> py_mod a 360 \<and> py_mod a 360 \<le> 360"
proof (cases "fmod a 360 < 0")
  case True
  with fmod_360_bounds [of a] have m: "- 360 < fmod a 360"
    by (cases "0 \<le> a") simp_all
  from m True have "of_int 0 \<le> fmod a 360 + 360" "fmod a 360 + 360 \<le> of_int 360"
    by simp_all
  then have "of_int 0 \<le> binary64 (fmod a 360 + 360)
      \<and> binary64 (fmod a 360 + 360) \<le> of_int 360"
    by (rule binary64_between) simp_all
  with True show ?thesis
    by (simp add: py_mod_def Let_def)
next
  case False
  with fmod_360_bounds [of a] have "0 \<le> fmod a 360" "fmod a 360 < 360"
    by (cases "0 \<le> a"; simp)+
  then show ?thesis
    by (simp add: py_mod_def Let_def)
qed

lemma normalize_signed_180_bounds:
  "- 180 \<le> normalize_signed_180 x \<and> normalize_signed_180 x \<le> 180"
proof -
  let ?r = "py_mod (binary64 (x + 180)) 360"
  from py_mod_360_range [of "binary64 (x + 180)"]
  have "of_int (- 180) \<le> ?r - 180" "?r - 180 \<le> of_int 180"
    by simp_all
  then have "of_int (- 180) \<le> binary64 (?r - 180) \<and> binary64 (?r - 180) \<le> of_int 180"
    by (rule binary64_between) simp_all
  then show ?thesis
    by (simp add: normalize_signed_180_def)
qed

lemma binary64_small_int:
  assumes "- 1000 \<le> n" "n \<le> 1000"
  shows "binary64 (of_int n) = of_int n"
proof -
  from assms have "\<bar>n\<bar> < 2 ^ 53" by simp
  then show ?thesis by (rule binary64_of_int)
qed

lemma fmod_of_int:
  "fmod (of_int a) 360 = (if 0 \<le> a then of_int (a mod 360) else - of_int ((- a) mod 360))"
proof (cases "0 \<le> a")
  case True
  have "\<lfloor>real_of_int a / 360\<rfloor> = a div 360"
    using floor_divide_of_int_eq [of a 360] by simp
  with True show ?thesis
    by (simp add: fmod_def minus_mult_div_eq_mod [symmetric])
next
  case False
  then have neg: "\<not> 0 \<le> real_of_int a / 360"
    by (simp add: divide_less_0_iff not_le)
  have "\<lceil>real_of_int a / 360\<rceil> = - \<lfloor>real_of_int (- a) / 360\<rfloor>"
    by (simp add: ceiling_def)
  also have "\<lfloor>real_of_int (- a) / 360\<rfloor> = (- a) div 360"
    using floor_divide_of_int_eq [of "- a" 360] by simp
  finally have c: "\<lceil>real_of_int a / 360\<rceil> = - ((- a) div 360)" .
  have "real_of_int ((- a) mod 360) = real_of_int (- a) - 360 * real_of_int ((- a) div 360)"
    by (simp add: minus_mult_div_eq_mod [symmetric])
  with False neg show ?thesis
    by (simp add: fmod_def c)
qed

lemma py_mod_of_int: "py_mod (of_int a) 360 = of_int (a mod 360)"
proof (cases "0 \<le> a")
  case True
  then show ?thesis
    by (simp add: py_mod_def Let_def fmod_of_int)
next
  case False
  show ?thesis
  proof (cases "(- a) mod 360 = 0")
    case True
    then have "a mod 360 = 0"
      by (simp add: zmod_zminus1_eq_if split: if_splits)
    with True False show ?thesis
      by (simp add: py_mod_def Let_def fmod_of_int)
  next
    case nz: False
    then have "a mod 360 \<noteq> 0"
      by (auto simp add: zmod_zminus1_eq_if)
    then have am: "a mod 360 = 360 - (- a) mod 360"
      using zmod_zminus1_eq_if [of "- a" 360] nz by simp
    have pos: "0 < (- a) mod 360"
      using nz pos_mod_sign [of 360 "- a"] by simp
    have "- real_of_int ((- a) mod 360) + 360 = of_int (a mod 360)"
      by (simp add: am)
    moreover have "binary64 (of_int (a mod 360)) = of_int (a mod 360)"
      by (rule binary64_small_int) (simp_all add: order_trans [OF _ less_imp_le] less_imp_le)
    ultimately show ?thesis
      using False nz pos by (simp add: py_mod_def Let_def fmod_of_int)
  qed
qed

lemma normalize_signed_180_of_int_wide:
  assumes "\<bar>n + 180\<bar> < 2 ^ 53"
  shows "normalize_signed_180 (of_int n) = of_int ((n + 180) mod 360 - 180)"
proof -
  from assms have "binary64 (of_int (n + 180)) = of_int (n + 180)"
    by (rule binary64_of_int)
  then have a: "binary64 (of_int n + 180) = of_int (n + 180)"
    by simp
  have "binary64 (of_int ((n + 180) mod 360 - 180)) = of_int ((n + 180) mod 360 - 180)"
    by (rule binary64_small_int) simp_all
  then show ?thesis
    unfolding normalize_signed_180_def a py_mod_of_int by simp
qed

lemma normalize_signed_180_of_int:
  assumes "\<bar>n\<bar> < 2 ^ 52"
  shows "normalize_signed_180 (of_int n) = of_int ((n + 180) mod 360 - 180)"
proof (rule normalize_signed_180_of_int_wide)
  from assms show "\<bar>n + 180\<bar> < 2 ^ 53"
    by simp
qed

lemma normalize_examples:
  "normalize_signed_180 361 = 1"
  "normalize_signed_180 (- 181) = 179"
  "normalize_signed_180 (- 358) = 2"
  "normalize_signed_180 180 = - 180"
  "normalize_signed_180 0 = 0"
  using normalize_signed_180_of_int [of 361] normalize_signed_180_of_int [of "- 181"]
    normalize_signed_180_of_int [of "- 358"] normalize_signed_180_of_int [of 180]
    normalize_signed_180_of_int [of 0]
  by simp_all

lemma binary64_numerals:
  "binary64 (1 - 359) = - 358"
  "binary64 0 = 0"
  using binary64_small_int [of "- 358"] binary64_small_int [of 0]
  by simp_all

lemma binary64_tie:
  assumes "e = 1 / 2 ^ 45"
  shows "binary64 (360 - e) = 360"
proof -
  define x :: real where "x = 360 - e"
  have "\<bar>x\<bar> < 2 ^ 9"
    by (simp add: x_def assms)
  then have "exponent x \<le> int 9 - 1"
    by (rule exponent_le)
  moreover have "(2::real) ^ 8 \<le> \<bar>x\<bar>"
    by (simp add: x_def assms)
  then have "int 8 \<le> exponent x"
    by (rule exponent_ge)
  ultimately have "exponent x = 8"
    by simp
  then have u: "ulp x = 1 / 2 ^ 44"
    by (simp add: ulp_def emin_def power_int_minus)
  have "x / ulp x = x * 2 ^ 44"
    by (simp add: u)
  also have "\<dots> = 12666373951979519 / 2"
    by (simp add: x_def assms)
  finally have q: "x / ulp x = 12666373951979519 / 2" .
  have "\<lfloor>12666373951979519 / 2 :: real\<rfloor> = 6333186975989759"
    by (rule floor_unique) simp_all
  then have r: "round_half_even (12666373951979519 / 2) = 6333186975989760"
    by (simp add: round_half_even_def)
  have "binary64 x = of_int (round_half_even (x / ulp x)) * ulp x"
    by (simp only: binary64_def)
  also have "\<dots> = of_int (round_half_even (12666373951979519 / 2)) * ulp x"
    by (simp only: q)
  also have "\<dots> = of_int 6333186975989760 * (1 / 2 ^ 44)"
    by (simp only: r u)
  also have "\<dots> = 360"
    by simp
  finally have "binary64 x = 360" .
  then show ?thesis
    by (simp only: x_def)
qed

lemma binary64_tiny:
  assumes "e = 1 / 2 ^ 45"
  shows "binary64 (- e) = - e"
proof (rule binary64_dyadic [where n = 8 and m = "- 1"])
  show "\<bar>- e\<bar> < 2 ^ 8" by (simp add: assms)
  show "(8::nat) \<le> 53" by simp
  show "- e * 2 ^ (53 - 8) = real_of_int (- 1)" by (simp add: assms)
qed

lemma normalize_upper_end_gen:
  assumes "e = 1 / 2 ^ 45"
  shows "normalize_signed_180 (- 180 - e) = 180"
proof -
  have epos: "0 < e" "e < 1"
    by (simp_all add: assms)
  have a: "binary64 (- 180 - e + 180) = - e"
    using binary64_tiny [OF assms] by simp
  have "\<lceil>- e / 360\<rceil> = 0"
    by (rule ceiling_unique) (use epos in simp_all)
  then have m: "fmod (- e) 360 = - e"
    using epos by (simp add: fmod_def divide_less_0_iff)
  have "py_mod (- e) 360 = binary64 (- e + 360)"
    using epos by (simp add: py_mod_def m Let_def)
  also have "- e + 360 = 360 - e"
    by simp
  finally have p: "py_mod (- e) 360 = 360"
    by (simp only: binary64_tie [OF assms])
  have "binary64 (360 - 180) = 180"
    using binary64_small_int [of 180] by simp
  then show ?thesis
    unfolding normalize_signed_180_def a p .
qed

lemma normalize_shifted_gen:
  assumes "e = 1 / 2 ^ 45"
  shows "normalize_signed_180 (- 180 - e + 360) = - 180"
proof -
  have "- 180 - e + 360 + 180 = 360 - e"
    by simp
  then have a: "binary64 (- 180 - e + 360 + 180) = 360"
    by (simp only: binary64_tie [OF assms])
  have p: "py_mod 360 360 = 0"
    by (simp add: py_mod_def fmod_def)
  have "binary64 (0 - 180) = - 180"
    using binary64_small_int [of "- 180"] by simp
  then show ?thesis
    unfolding normalize_signed_180_def a p .
qed

lemma normalize_upper_end: "normalize_signed_180 (- 180 - 1 / 2 ^ 45) = 180"
  using normalize_upper_end_gen [of "1 / 2 ^ 45"] by simp

lemma normalize_shifted: "normalize_signed_180 (- 180 - 1 / 2 ^ 45 + 360) = - 180"
  using normalize_shifted_gen [of "1 / 2 ^ 45"] by simp

lemma periodic_int:
  assumes "\<bar>n\<bar> < 2 ^ 52"
  shows "normalize_signed_180 (of_int n + 360) = normalize_signed_180 (of_int n)"
proof -
  from assms have "\<bar>n + 360 + 180\<bar> < 2 ^ 53"
    by (simp add: abs_less_iff)
  then have "normalize_signed_180 (of_int (n + 360)) = of_int ((n + 360 + 180) mod 360 - 180)"
    by (rule normalize_signed_180_of_int_wide)
  also have "(n + 360 + 180) mod 360 = (n + 180 + 360) mod 360"
    by (rule arg_cong [where f = "\<lambda>k. k mod 360"]) simp
  also have "\<dots> = (n + 180) mod 360"
    by (rule mod_add_self2)
  also have "of_int ((n + 180) mod 360 - 180) = normalize_signed_180 (of_int n)"
    by (rule normalize_signed_180_of_int [OF assms, symmetric])
  finally show ?thesis
    by simp
qed


text \<open>
  Claim C1, as the code has it. The normalisation sends every finite float into the closed
  interval from -180 to 180, and both ends are attained: 180 goes to -180, and the float
  just below -180 goes to +180. On whole numbers of degrees it is periodic with period
  360. It sends 361 to 1 and -181 to 179, and a target azimuth of 1 against an observer
  azimuth of 359 gives +2.
\<close>

theorem normalize_signed_180_range:
  "(\<bar>x\<bar> \<le> 2 ^ emax \<longrightarrow> - 180 \<le> normalize_signed_180 x \<and> normalize_signed_180 x \<le> 180)
   \<and> (\<bar>n\<bar> < 2 ^ 52 \<longrightarrow>
        normalize_signed_180 (of_int n + 360) = normalize_signed_180 (of_int n))
   \<and> normalize_signed_180 361 = 1
   \<and> normalize_signed_180 (- 181) = 179
   \<and> normalize_signed_180 (binary64 (1 - 359)) = 2
   \<and> normalize_signed_180 180 = - 180
   \<and> normalize_signed_180 (- 180 - 1 / 2 ^ 45) = 180"
proof -
  have e3: "normalize_signed_180 (binary64 (1 - 359)) = 2"
    by (simp only: binary64_numerals(1) normalize_examples(3))
  from periodic_int [of n] normalize_signed_180_bounds [of x] normalize_examples(1,2,4)
    e3 normalize_upper_end
  show ?thesis
    by blast
qed

text \<open>
  Claim C1 at the float just below -180, which goes to +180, and at one degree, which goes
  where 361 degrees go.
\<close>

theorem normalize_signed_180_range_witness:
  "\<bar>- 180 - 1 / 2 ^ 45 :: real\<bar> \<le> 2 ^ emax
   \<and> - 180 \<le> normalize_signed_180 (- 180 - 1 / 2 ^ 45)
   \<and> normalize_signed_180 (- 180 - 1 / 2 ^ 45) \<le> 180
   \<and> \<bar>1 :: int\<bar> < 2 ^ 52
   \<and> normalize_signed_180 (of_int 1 + 360) = normalize_signed_180 (of_int 1)"
proof -
  have "\<bar>- 180 - 1 / 2 ^ 45 :: real\<bar> \<le> 2 ^ 9"
    by simp
  also have "(2::real) ^ 9 \<le> 2 ^ emax"
    by (rule power_increasing) (simp_all add: emax_def)
  finally have a: "\<bar>- 180 - 1 / 2 ^ 45 :: real\<bar> \<le> 2 ^ emax" .
  have b: "\<bar>1 :: int\<bar> < 2 ^ 52"
    by simp
  from a b normalize_signed_180_range [where x = "- 180 - 1 / 2 ^ 45" and n = 1]
  show ?thesis
    by blast
qed

text \<open>
  Claim C1, as the specification words it, fails at 180 degrees: the interval from -180
  (excluded) to 180 excludes -180, which is the value the code returns there. The period
  fails at the float just below -180, which goes to +180 while the float 360 above it goes
  to -180.
\<close>

theorem normalize_signed_180_at_180:
  "\<not> (- 180 < normalize_signed_180 180 \<and> normalize_signed_180 180 \<le> 180)
   \<and> normalize_signed_180 (- 180 - 1 / 2 ^ 45 + 360) \<noteq> normalize_signed_180 (- 180 - 1 / 2 ^ 45)"
  by (simp only: normalize_examples(4) normalize_upper_end normalize_shifted) simp

section \<open>The designator buffer of the catalog-search screen\<close>

lemma loop_gen:
  "index < length des \<Longrightarrow>
   key_number_loop des index =
     take index des
     @ replicate (Suc (length (takeWhile (\<lambda>x. x = ''0'' \<or> x = ''-'') (drop (Suc index) des)))) ''-''
     @ dropWhile (\<lambda>x. x = ''0'' \<or> x = ''-'') (drop (Suc index) des)"
proof (induction des index rule: key_number_loop.induct)
  case (1 des index)
  let ?P = "\<lambda>x. x = ''0'' \<or> x = ''-''"
  let ?des' = "des[index := ''-'']"
  from "1.prems" have upd: "?des' = take index des @ ''-'' # drop (Suc index) des"
    by (rule upd_conv_take_nth_drop)
  show ?case
  proof (cases "index + 1 \<ge> length des")
    case True
    then have "drop (Suc index) des = []" by simp
    with True upd show ?thesis
      by (subst key_number_loop.simps) simp
  next
    case False
    then have inner: "Suc index < length des" by simp
    then have split: "drop (Suc index) des = des ! Suc index # drop (Suc (Suc index)) des"
      by (simp add: Cons_nth_drop_Suc)
    have same: "?des' ! Suc index = des ! Suc index" by simp
    show ?thesis
    proof (cases "?P (des ! Suc index)")
      case stop: False
      with False same have "key_number_loop des index = ?des'"
        by (subst key_number_loop.simps) auto
      with upd split stop show ?thesis by simp
    next
      case go: True
      with False same have step: "key_number_loop des index = key_number_loop ?des' (index + 1)"
        by (subst key_number_loop.simps) auto
      have "\<not> (index + 1 \<ge> length des \<or> ?des' ! (index + 1) \<notin> set [''0'', ''-''])"
        using False go same by auto
      moreover have "index + 1 < length ?des'" using inner by simp
      ultimately have IH: "key_number_loop ?des' (index + 1) =
          take (index + 1) ?des'
          @ replicate (Suc (length (takeWhile ?P (drop (Suc (index + 1)) ?des')))) ''-''
          @ dropWhile ?P (drop (Suc (index + 1)) ?des')"
        by (rule "1.IH")
      have t: "take (index + 1) ?des' = take index des @ [''-'']"
        using "1.prems" by (simp add: upd)
      have d: "drop (Suc (index + 1)) ?des' = drop (Suc (Suc index)) des"
        by simp
      show ?thesis
        unfolding step IH t d using split go by simp
    qed
  qed
qed

lemma loop_collapse:
  assumes "des \<noteq> []" "hd des \<in> set [''0'', ''-'']"
  shows "key_number_loop des 0 = collapse_leading des"
proof -
  from assms obtain x xs where des: "des = x # xs" and x: "x = ''0'' \<or> x = ''-''"
    by (cases des) auto
  have "key_number_loop des 0 =
      replicate (Suc (length (takeWhile (\<lambda>x. x = ''0'' \<or> x = ''-'') xs))) ''-''
      @ dropWhile (\<lambda>x. x = ''0'' \<or> x = ''-'') xs"
    using loop_gen [of 0 des] by (simp add: des)
  with x show ?thesis
    by (auto simp add: collapse_leading_def des)
qed

lemma no_collapse:
  assumes "des \<noteq> []" "hd des \<notin> set [''0'', ''-'']"
  shows "collapse_leading des = des"
  using assms by (cases des) (auto simp add: collapse_leading_def)

lemma catalog_code_ok: "i < 3 \<Longrightarrow> \<exists>c. catalog_code i = Inr c"
  by (auto simp add: catalog_code_def catalogs_def strip_def less_Suc_eq numeral_3_eq_3)

lemma update_object_text_keeps [simp]:
  "designator (update_object_text OBJ_TYPES s) = designator s"
  "cat_object (update_object_text OBJ_TYPES s) = cat_object s"
  "catalog_index (update_object_text OBJ_TYPES s) = catalog_index s"
  by (simp_all add: update_object_text_def Let_def split: option.split)

lemma key_number_Inr:
  assumes "catalog_index s < 3"
  shows "\<exists>c. catalog_code (catalog_index s) = Inr c \<and> key_number db OBJ_TYPES number s =
     Inr (update_object_text OBJ_TYPES
            (s\<lparr>designator := collapse_leading (tl (designator s) @ [str number]),
               cat_object := fetchone (select_where db c ''=''
                  (joined_designator (collapse_leading (tl (designator s) @ [str number]))))\<rparr>))"
proof -
  let ?d1 = "tl (designator s) @ [str number]"
  have d2: "(if hd ?d1 \<in> set [''0'', ''-''] then key_number_loop ?d1 0 else ?d1) = collapse_leading ?d1"
    using loop_collapse [of ?d1] no_collapse [of ?d1] by auto
  from assms obtain c where "catalog_code (catalog_index s) = Inr c"
    using catalog_code_ok by blast
  then show ?thesis
    unfolding key_number_def Let_def d2 by simp
qed

lemma str_digit: "n < 10 \<Longrightarrow> str n = [digits10 ! n]"
  by (subst str.simps) simp

lemma str_0: "str 0 = ''0''"
  by (simp add: str_digit digits10_def)
lemma str_7: "str 7 = ''7''"
  by (simp add: str_digit digits10_def)

lemma push_007: "\<exists>s'. key_numbers db OBJ_TYPES [0, 0, 7] UICatalog_init = Inr s' \<and> joined_designator (designator s') = ''7''"
proof -
  let ?s0 = "UICatalog_init"
  obtain s1 where s1: "key_number db OBJ_TYPES 0 ?s0 = Inr s1" "designator s1 = [''-'', ''-'', ''-'', ''-'']"
    "catalog_index s1 = 0"
    using key_number_Inr [of ?s0 db OBJ_TYPES 0]
    by (auto simp add: UICatalog_init_def str_0 collapse_leading_def eval_nat_numeral)
  obtain s2 where s2: "key_number db OBJ_TYPES 0 s1 = Inr s2" "designator s2 = [''-'', ''-'', ''-'', ''-'']"
    "catalog_index s2 = 0"
    using key_number_Inr [of s1 db OBJ_TYPES 0] s1
    by (auto simp add: str_0 collapse_leading_def)
  obtain s3 where s3: "key_number db OBJ_TYPES 7 s2 = Inr s3" "designator s3 = [''-'', ''-'', ''-'', ''7'']"
    using key_number_Inr [of s2 db OBJ_TYPES 7] s2
    by (auto simp add: str_7 collapse_leading_def)
  from s1 s2 s3 show ?thesis
    by (simp add: joined_designator_def remove_dashes_def)
qed



lemma UICatalog_init_fields:
  "designator UICatalog_init = [''-'', ''-'', ''-'', ''-'']"
  "catalog_index UICatalog_init = 0"
  by (simp_all add: UICatalog_init_def eval_nat_numeral)

lemma length_collapse_leading: "length (collapse_leading des) = length des"
proof -
  have "length (takeWhile (\<lambda>x. x = ''0'' \<or> x = ''-'') des)
      + length (dropWhile (\<lambda>x. x = ''0'' \<or> x = ''-'') des) = length des"
    by (metis length_append takeWhile_dropWhile_id)
  then show ?thesis
    by (simp add: collapse_leading_def)
qed

text \<open>
  Claim C4. A digit key on a screen whose catalog index is one of the three catalogs
  succeeds, and the new buffer is the old one shifted left by one slot with the digit's
  numeral appended at the right, in which the maximal leading run of slots holding
  \<^verbatim>\<open>"0"\<close> or \<^verbatim>\<open>"-"\<close> is replaced by dashes up to the first slot with other content; a
  non-empty buffer keeps its width. The keys 0, 0, 7 on the fresh four-slot buffer give
  the key \<^verbatim>\<open>"7"\<close>.
\<close>

theorem key_number_leading_collapse:
  "(catalog_index s < 3 \<longrightarrow>
      (\<exists>s'. key_number db OBJ_TYPES number s = Inr s'
         \<and> designator s' = collapse_leading (tl (designator s) @ [str number])
         \<and> (designator s \<noteq> [] \<longrightarrow> length (designator s') = length (designator s))))
   \<and> (\<exists>s'. key_numbers db OBJ_TYPES [0, 0, 7] UICatalog_init = Inr s'
         \<and> joined_designator (designator s') = ''7'')"
proof -
  have general: "\<exists>s'. key_number db OBJ_TYPES number s = Inr s'
         \<and> designator s' = collapse_leading (tl (designator s) @ [str number])
         \<and> (designator s \<noteq> [] \<longrightarrow> length (designator s') = length (designator s))"
    if "catalog_index s < 3"
    using key_number_Inr [OF that, of db OBJ_TYPES number]
    by (auto simp add: length_collapse_leading)
  from general push_007 show ?thesis
    by blast
qed

theorem key_number_leading_collapse_witness:
  "catalog_index UICatalog_init < 3
   \<and> (\<exists>s'. key_number example_db Map.empty 7 UICatalog_init = Inr s'
         \<and> designator s' = [''-'', ''-'', ''-'', ''7'']
         \<and> length (designator s') = length (designator UICatalog_init))"
  using key_number_leading_collapse
    [where s = UICatalog_init and db = example_db and OBJ_TYPES = Map.empty and number = 7]
  by (auto simp add: UICatalog_init_fields str_7 collapse_leading_def)

section \<open>Neighbour lookup in the catalog store\<close>

lemma fetchone_None: "fetchone xs = None \<longleftrightarrow> xs = []"
  by (cases xs) (simp_all add: fetchone_def)

lemma sort_key_Nil: "sort_key f xs = [] \<longleftrightarrow> xs = []"
  by (metis length_sort length_0_conv)

lemma fetchone_sort_key:
  assumes "fetchone (sort_key f xs) = Some r"
  shows "r \<in> set xs \<and> (\<forall>x \<in> set xs. f r \<le> f x)"
proof -
  from assms obtain ys where ys: "sort_key f xs = r # ys"
    by (cases "sort_key f xs") (simp_all add: fetchone_def)
  have "sorted (map f (sort_key f xs))" by (rule sorted_sort_key)
  with ys have "\<forall>y \<in> set ys. f r \<le> f y" by simp
  moreover have "set xs = set (r # ys)" using ys by (metis set_sort)
  ultimately show ?thesis by auto
qed

lemma fetchone_rev_sort_key:
  assumes "fetchone (rev (sort_key f xs)) = Some r"
  shows "r \<in> set xs \<and> (\<forall>x \<in> set xs. f x \<le> f r)"
proof -
  from assms obtain ys where "rev (sort_key f xs) = r # ys"
    by (cases "rev (sort_key f xs)") (simp_all add: fetchone_def)
  then have ys: "sort_key f xs = rev ys @ [r]"
    by (metis rev_rev_ident rev.simps(2))
  have "sorted (map f (sort_key f xs))" by (rule sorted_sort_key)
  with ys have "\<forall>y \<in> set ys. f y \<le> f r" by (simp add: sorted_append)
  moreover have "set xs = set (rev ys @ [r])" using ys by (metis set_sort)
  ultimately show ?thesis by auto
qed

lemma scroll_forward:
  assumes c: "catalog_code (catalog_index s) = Inr c"
    and k: "sql_numeric (joined_designator (designator s)) = Some k"
  shows "\<exists>s'. scroll_obj db OBJ_TYPES ''>'' s = Inr s'
     \<and> (if \<exists>r \<in> set db. catalog r = c \<and> k < designation r
         then \<exists>r. cat_object s' = Some r \<and> forward_neighbor db c k r
         else s' = s)"
proof -
  let ?rows = "select_where db c ''>'' (joined_designator (designator s))"
  have rows: "set ?rows = {r \<in> set db. catalog r = c \<and> k < designation r}"
    by (auto simp add: select_where_def sql_compare_def k)
  show ?thesis
  proof (cases "fetchone (order_by_designation [] ?rows)")
    case None
    then have "?rows = []"
      by (simp add: order_by_designation_def fetchone_None sort_key_Nil)
    with rows have "\<not> (\<exists>r \<in> set db. catalog r = c \<and> k < designation r)"
      by auto
    with None c show ?thesis
      by (auto simp add: scroll_obj_def)
  next
    case (Some r)
    then have "r \<in> set ?rows \<and> (\<forall>x \<in> set ?rows. designation r \<le> designation x)"
      using fetchone_sort_key [of designation ?rows r] by (simp add: order_by_designation_def)
    with rows have "forward_neighbor db c k r"
      by (auto simp add: forward_neighbor_def)
    moreover from this have "\<exists>r \<in> set db. catalog r = c \<and> k < designation r"
      by (auto simp add: forward_neighbor_def)
    ultimately show ?thesis using Some c
      by (simp add: scroll_obj_def Let_def)
  qed
qed

lemma scroll_backward:
  assumes c: "catalog_code (catalog_index s) = Inr c"
    and k: "sql_numeric (joined_designator (designator s)) = Some k"
  shows "\<exists>s'. scroll_obj db OBJ_TYPES ''<'' s = Inr s'
     \<and> (if \<exists>r \<in> set db. catalog r = c \<and> designation r < k
         then \<exists>r. cat_object s' = Some r \<and> backward_neighbor db c k r
         else s' = s)"
proof -
  let ?rows = "select_where db c ''<'' (joined_designator (designator s))"
  have rows: "set ?rows = {r \<in> set db. catalog r = c \<and> designation r < k}"
    by (auto simp add: select_where_def sql_compare_def k)
  show ?thesis
  proof (cases "fetchone (order_by_designation ''desc'' ?rows)")
    case None
    then have "?rows = []"
      by (simp add: order_by_designation_def fetchone_None sort_key_Nil)
    with rows have "\<not> (\<exists>r \<in> set db. catalog r = c \<and> designation r < k)"
      by auto
    with None c show ?thesis
      by (auto simp add: scroll_obj_def)
  next
    case (Some r)
    then have "r \<in> set ?rows \<and> (\<forall>x \<in> set ?rows. designation x \<le> designation r)"
      using fetchone_rev_sort_key [of designation ?rows r] by (simp add: order_by_designation_def)
    with rows have "backward_neighbor db c k r"
      by (auto simp add: backward_neighbor_def)
    moreover from this have "\<exists>r \<in> set db. catalog r = c \<and> designation r < k"
      by (auto simp add: backward_neighbor_def)
    ultimately show ?thesis using Some c
      by (simp add: scroll_obj_def Let_def)
  qed
qed


lemma catalog_code_0: "catalog_code 0 = Inr ''N''"
  by (simp add: catalog_code_def catalogs_def strip_def)

lemma str_5: "str 5 = ''5''"
  by (simp add: str_digit digits10_def)

lemma sql_numeric_5: "sql_numeric ''5'' = Some 5"
  by (simp add: sql_numeric_def digit_val_def digits10_def)

lemma example_159:
  "\<exists>s5 sf sb. key_numbers example_db OBJ_TYPES [5] UICatalog_init = Inr s5
     \<and> joined_designator (designator s5) = ''5''
     \<and> key_down example_db OBJ_TYPES s5 = Inr sf
     \<and> map_option designation (cat_object sf) = Some 9
     \<and> key_up example_db OBJ_TYPES s5 = Inr sb
     \<and> map_option designation (cat_object sb) = Some 1"
proof -
  obtain s5 where s5: "key_number example_db OBJ_TYPES 5 UICatalog_init = Inr s5"
    "designator s5 = [''-'', ''-'', ''-'', ''5'']" "catalog_index s5 = 0"
    using key_number_Inr [of UICatalog_init example_db OBJ_TYPES 5]
    by (auto simp add: UICatalog_init_fields str_5 collapse_leading_def)
  have key': "joined_designator [''-'', ''-'', ''-'', ''5''] = ''5''"
    by (simp add: joined_designator_def remove_dashes_def)
  have key: "joined_designator (designator s5) = ''5''"
    by (simp add: s5 key')
  have fwd: "fetchone (order_by_designation [] (select_where example_db ''N'' ''>'' ''5''))
      = Some \<lparr>catalog = ''N'', designation = 9, obj_type = ''Gx'', const = ''Peg'', ra = 2, dec = 23\<rparr>"
    by (simp add: order_by_designation_def select_where_def example_db_def sql_compare_def
        sql_numeric_5 fetchone_def)
  have bwd: "fetchone (order_by_designation ''desc'' (select_where example_db ''N'' ''<'' ''5''))
      = Some \<lparr>catalog = ''N'', designation = 1, obj_type = ''Gx'', const = ''Peg'', ra = 1, dec = 27\<rparr>"
    by (simp add: order_by_designation_def select_where_def example_db_def sql_compare_def
        sql_numeric_5 fetchone_def)
  have f: "\<exists>sf. key_down example_db OBJ_TYPES s5 = Inr sf
      \<and> map_option designation (cat_object sf) = Some 9"
    by (simp add: key_down_def scroll_obj_def key' s5 catalog_code_0 fwd Let_def)
  have b: "\<exists>sb. key_up example_db OBJ_TYPES s5 = Inr sb
      \<and> map_option designation (cat_object sb) = Some 1"
    by (simp add: key_up_def scroll_obj_def key' s5 catalog_code_0 bwd Let_def)
  from s5 key f b show ?thesis
    by auto
qed

text \<open>
  Claim C6. With a numeric key \<open>k\<close> in the buffer, the down key (forward) finds the row of
  the current catalog with the smallest designation above \<open>k\<close>, and the up key (backward)
  the row with the largest designation below \<open>k\<close>; where there is no such row the screen is
  left as it was. In the store whose catalog \<^verbatim>\<open>N\<close> holds 1, 5 and 9, forward from the key
  \<^verbatim>\<open>"5"\<close> gives designation 9 and backward gives designation 1.
\<close>

theorem scroll_obj_neighbor:
  "(catalog_code (catalog_index s) = Inr c
      \<and> sql_numeric (joined_designator (designator s)) = Some k \<longrightarrow>
      (\<exists>s'. key_down db OBJ_TYPES s = Inr s'
         \<and> (if \<exists>r \<in> set db. catalog r = c \<and> k < designation r
             then \<exists>r. cat_object s' = Some r \<and> forward_neighbor db c k r
             else s' = s))
      \<and> (\<exists>s'. key_up db OBJ_TYPES s = Inr s'
         \<and> (if \<exists>r \<in> set db. catalog r = c \<and> designation r < k
             then \<exists>r. cat_object s' = Some r \<and> backward_neighbor db c k r
             else s' = s)))
   \<and> (\<exists>s5 sf sb. key_numbers example_db OBJ_TYPES [5] UICatalog_init = Inr s5
         \<and> joined_designator (designator s5) = ''5''
         \<and> key_down example_db OBJ_TYPES s5 = Inr sf
         \<and> map_option designation (cat_object sf) = Some 9
         \<and> key_up example_db OBJ_TYPES s5 = Inr sb
         \<and> map_option designation (cat_object sb) = Some 1)"
  unfolding key_down_def key_up_def
  using scroll_forward [of s c k db OBJ_TYPES] scroll_backward [of s c k db OBJ_TYPES]
    example_159 [of OBJ_TYPES, unfolded key_down_def key_up_def]
  by blast

theorem scroll_obj_neighbor_witness:
  "catalog_code (catalog_index
      \<lparr>catalog_index = 0, designator = [''-'', ''-'', ''-'', ''5''], cat_object = None,
       object_text = [''No Object Found'']\<rparr>) = Inr ''N''
   \<and> sql_numeric (joined_designator (designator
      \<lparr>catalog_index = 0, designator = [''-'', ''-'', ''-'', ''5''], cat_object = None,
       object_text = [''No Object Found'']\<rparr>)) = Some 5
   \<and> (\<exists>s' r. key_down example_db Map.empty
      \<lparr>catalog_index = 0, designator = [''-'', ''-'', ''-'', ''5''], cat_object = None,
       object_text = [''No Object Found'']\<rparr> = Inr s'
         \<and> cat_object s' = Some r \<and> forward_neighbor example_db ''N'' 5 r)
   \<and> (\<exists>s' r. key_up example_db Map.empty
      \<lparr>catalog_index = 0, designator = [''-'', ''-'', ''-'', ''5''], cat_object = None,
       object_text = [''No Object Found'']\<rparr> = Inr s'
         \<and> cat_object s' = Some r \<and> backward_neighbor example_db ''N'' 5 r)"
proof -
  let ?s = "\<lparr>catalog_index = 0, designator = [''-'', ''-'', ''-'', ''5''], cat_object = None,
       object_text = [''No Object Found'']\<rparr>"
  have c: "catalog_code (catalog_index ?s) = Inr ''N''"
    by (simp add: catalog_code_0)
  have k: "sql_numeric (joined_designator (designator ?s)) = Some 5"
    by (simp add: joined_designator_def remove_dashes_def sql_numeric_5)
  have above: "\<exists>r \<in> set example_db. catalog r = ''N'' \<and> 5 < designation r"
    by (simp add: example_db_def)
  have below: "\<exists>r \<in> set example_db. catalog r = ''N'' \<and> designation r < 5"
    by (simp add: example_db_def)
  from c k above below
    scroll_obj_neighbor [where s = ?s and c = "''N''" and k = 5 and db = example_db
      and OBJ_TYPES = Map.empty]
  show ?thesis
    by auto
qed

section \<open>The push-to screen: what its methods keep\<close>

lemma update_object_text_locate_keeps [simp]:
  "target_index (update_object_text_locate env s) = target_index s"
  "active_list (update_object_text_locate env s) = active_list s"
  "history_list (update_object_text_locate env s) = history_list s"
  "observing_list (update_object_text_locate env s) = observing_list s"
  "target (update_object_text_locate env s) = target s"
  "messages (update_object_text_locate env s) = messages s"
  "written (update_object_text_locate env s) = written s"
  by (simp_all add: update_object_text_locate_def Let_def split: option.split)

lemma message_keeps [simp]:
  "target_index (message txt s) = target_index s"
  "active_list (message txt s) = active_list s"
  "history_list (message txt s) = history_list s"
  "observing_list (message txt s) = observing_list s"
  "target (message txt s) = target s"
  "messages (message txt s) = messages s @ [txt]"
  "written (message txt s) = written s"
  by (simp_all add: message_def)

lemma example_locate_fields:
  "target_index example_locate = Some 0"
  "active_list example_locate = [example_object]"
  "history_list example_locate = [example_object]"
  "observing_list example_locate = []"
  "target example_locate = Some example_object"
  "messages example_locate = []"
  "written example_locate = []"
  "locate_object_text example_locate = [''Gx             And'']"
  "uuid example_locate = ''u''"
  "ss_count example_locate = 0"
  by (simp_all add: example_locate_def)

lemma example_env_fields:
  "read_list example_env name =
     \<lparr>lr_result = ''error'', lr_message = ''no file'', lr_catalog = [], lr_objects_parsed = 0\<rparr>"
  "radec_to_altaz example_env loc r d t = (15, 90)"
  "obj_types_table example_env = Map.empty"
  by (simp_all add: example_env_def)

lemma example_shared_fields:
  "solution (example_shared az alt) = Some \<lparr>Az = Some az, Alt = Some alt\<rparr>"
  "location (example_shared az alt) = Some \<lparr>lat = 50, lon = 8, altitude = 100\<rparr>"
  "datetime (example_shared az alt) = Some 0"
  by (simp_all add: example_shared_def)

lemma str_1: "str (Suc 0) = ''1''"
  by (simp add: str_digit digits10_def)

lemma format_02d_0: "format_02d 0 = ''00''"
  by (simp add: format_02d_def str_0 eval_nat_numeral)

section \<open>Scrolling the active list\<close>

lemma scroll_index:
  assumes "target_index s = Some i" "i < length (active_list s)"
  shows "target_index (fst (scroll_target_history env sh d s)) =
      Some (nat (max 0 (min (int (length (active_list s)) - 1) (int i + d))))
    \<and> active_list (fst (scroll_target_history env sh d s)) = active_list s"
  using assms
  by (auto simp add: scroll_target_history_def Let_def max_def min_def)

lemma scroll_cases:
  assumes "target_index s = Some i" "i < length (active_list s)"
  shows "target_index (fst (key_down_locate env sh s)) = Some (if i + 1 < length (active_list s) then i + 1 else i)"
    and "target_index (fst (key_up_locate env sh s)) = Some (if 0 < i then i - 1 else i)"
  using scroll_index [OF assms, of env sh 1] scroll_index [OF assms, of env sh "- 1"] assms
  by (auto simp add: key_down_locate_def key_up_locate_def max_def min_def nat_add_distrib nat_diff_distrib)

lemma scroll_target:
  assumes "target_index s = Some i" "i < length (active_list s)"
    and "target_index (fst (scroll_target_history env sh d s)) = Some j"
  shows "j < length (active_list s) \<and> target (fst (scroll_target_history env sh d s)) = Some (active_list s ! j)"
  using assms
  by (auto simp add: scroll_target_history_def Let_def split: if_splits)

lemma scroll_down_many:
  assumes "target_index s = Some i" "i < length (active_list s)"
  shows "target_index (((\<lambda>s. fst (key_down_locate env sh s)) ^^ n) s)
        = Some (min (i + n) (length (active_list s) - 1))
    \<and> active_list (((\<lambda>s. fst (key_down_locate env sh s)) ^^ n) s) = active_list s"
proof (induction n)
  case 0
  from assms show ?case by (simp add: min_def)
next
  case (Suc n)
  let ?s = "((\<lambda>s. fst (key_down_locate env sh s)) ^^ n) s"
  let ?j = "min (i + n) (length (active_list s) - 1)"
  from Suc have idx: "target_index ?s = Some ?j" and act: "active_list ?s = active_list s"
    by simp_all
  from assms act have range: "?j < length (active_list ?s)"
    by (auto simp add: min_def)
  have "active_list (fst (key_down_locate env sh ?s)) = active_list ?s"
    using scroll_index [OF idx range, of env sh 1] by (simp add: key_down_locate_def)
  with scroll_cases(1) [OF idx range, of env sh] act
  show ?case
    by (auto simp add: min_def)
qed

lemma scroll_up_many:
  assumes "target_index s = Some i" "i < length (active_list s)"
  shows "target_index (((\<lambda>s. fst (key_up_locate env sh s)) ^^ n) s) = Some (i - n)
    \<and> active_list (((\<lambda>s. fst (key_up_locate env sh s)) ^^ n) s) = active_list s"
proof (induction n)
  case 0
  from assms show ?case by simp
next
  case (Suc n)
  let ?s = "((\<lambda>s. fst (key_up_locate env sh s)) ^^ n) s"
  from Suc have idx: "target_index ?s = Some (i - n)" and act: "active_list ?s = active_list s"
    by simp_all
  from assms act have range: "i - n < length (active_list ?s)"
    by simp
  have "active_list (fst (key_up_locate env sh ?s)) = active_list ?s"
    using scroll_index [OF idx range, of env sh "- 1"] by (simp add: key_up_locate_def)
  with scroll_cases(2) [OF idx range, of env sh] act
  show ?case
    by auto
qed

text \<open>
  Claim C9. With the cursor set at a position \<open>i\<close> of the active list, a scroll by +1
  moves it to \<open>i + 1\<close> unless \<open>i\<close> is the last position, where it stays; a scroll by -1
  moves it to \<open>i - 1\<close> unless \<open>i\<close> is 0, where it stays. There is no wraparound: after
  \<open>n\<close> scrolls by +1 the cursor is at \<open>i + n\<close> or at the last position, whichever is
  smaller, and after \<open>n\<close> scrolls by -1 at \<open>i - n\<close> or at 0, so that scrolling again at
  a boundary changes nothing.
\<close>

theorem scroll_target_history_clamped:
  "target_index s = Some i \<and> i < length (active_list s) \<longrightarrow>
     target_index (fst (scroll_target_history env sh 1 s))
       = Some (if i + 1 < length (active_list s) then i + 1 else i)
   \<and> target_index (fst (scroll_target_history env sh (- 1) s))
       = Some (if 0 < i then i - 1 else i)
   \<and> (\<forall>n. target_index (((\<lambda>s. fst (scroll_target_history env sh 1 s)) ^^ n) s)
          = Some (min (i + n) (length (active_list s) - 1)))
   \<and> (\<forall>n. target_index (((\<lambda>s. fst (scroll_target_history env sh (- 1) s)) ^^ n) s)
          = Some (i - n))"
  using scroll_cases [where s = s and i = i and env = env and sh = sh]
    scroll_down_many [where s = s and i = i and env = env and sh = sh]
    scroll_up_many [where s = s and i = i and env = env and sh = sh]
  by (simp add: key_down_locate_def key_up_locate_def)

text \<open>
  Claim C9 on a list of three objects with the cursor at 0: down gives 1, up stays at 0,
  and five times down stops at the last position 2.
\<close>

theorem scroll_target_history_clamped_witness:
  "target_index (example_locate\<lparr>active_list := [example_object, example_object, example_object]\<rparr>)
     = Some 0
   \<and> 0 < length (active_list
       (example_locate\<lparr>active_list := [example_object, example_object, example_object]\<rparr>))
   \<and> target_index (fst (scroll_target_history example_env (example_shared 90 10) 1
       (example_locate\<lparr>active_list := [example_object, example_object, example_object]\<rparr>)))
     = Some 1
   \<and> target_index (fst (scroll_target_history example_env (example_shared 90 10) (- 1)
       (example_locate\<lparr>active_list := [example_object, example_object, example_object]\<rparr>)))
     = Some 0
   \<and> target_index (((\<lambda>s. fst (scroll_target_history example_env (example_shared 90 10) 1 s)) ^^ 5)
       (example_locate\<lparr>active_list := [example_object, example_object, example_object]\<rparr>))
     = Some 2"
  using scroll_target_history_clamped
    [where s = "example_locate\<lparr>active_list := [example_object, example_object, example_object]\<rparr>"
      and i = 0 and env = example_env and sh = "example_shared 90 10"]
  by (simp add: example_locate_fields)

section \<open>Switching the active list\<close>

text \<open>
  Claim C3, as the code has it. When the destination list of a switch is empty (the
  observing list if the active list equals the history list, the history list otherwise),
  the active list, both lists and the shared target are what they were, and the message
  \<^verbatim>\<open>No Obs List\<close> or \<^verbatim>\<open>No History\<close> is given to the user; the cursor is cleared.
\<close>

theorem key_b_refused:
  "(if active_list s = history_list s then observing_list s = [] else history_list s = []) \<longrightarrow>
     active_list (key_b env s) = active_list s
   \<and> history_list (key_b env s) = history_list s
   \<and> observing_list (key_b env s) = observing_list s
   \<and> target (key_b env s) = target s
   \<and> target_index (key_b env s) = None
   \<and> messages (key_b env s) =
       messages s @ [if active_list s = history_list s then ''No Obs List'' else ''No History'']"
  by (simp add: key_b_def Let_def message_def)

text \<open>
  Claim C3 with the history list active and no observing list: the switch is refused with
  \<^verbatim>\<open>No Obs List\<close>.
\<close>

theorem key_b_refused_witness:
  "(if active_list example_locate = history_list example_locate
    then observing_list example_locate = [] else history_list example_locate = [])
   \<and> active_list (key_b example_env example_locate) = [example_object]
   \<and> target (key_b example_env example_locate) = Some example_object
   \<and> target_index (key_b example_env example_locate) = None
   \<and> messages (key_b example_env example_locate) = [''No Obs List'']"
  using key_b_refused [where s = example_locate and env = example_env]
  by (simp add: example_locate_fields)

text \<open>
  Claim C3, as the specification words it, fails there: the cursor was at 0 before the
  refused switch and is unset after it.
\<close>

theorem key_b_refused_clears_cursor:
  "active_list example_locate = history_list example_locate
   \<and> observing_list example_locate = []
   \<and> target_index example_locate = Some 0
   \<and> target_index (key_b example_env example_locate) \<noteq> target_index example_locate"
  by (simp add: key_b_def Let_def message_def example_locate_fields)

section \<open>Loading and saving lists\<close>

text \<open>
  Claim C7. For a list name other than \<^verbatim>\<open>CANCEL\<close>: a retrieval error is reported as
  \<^verbatim>\<open>Err!\<close> with the store's message, a result of zero objects as \<^verbatim>\<open>No matches\<close>, and in
  both cases the observing list, the active list, the history list, the cursor and the
  target are unchanged. A result with objects succeeds: it becomes the observing and the
  active list, the cursor is 0, the target is its first object, and the message tells how
  many objects were loaded of how many parsed.
\<close>

theorem load_list_failure_keeps_state:
  "option \<noteq> ''CANCEL'' \<longrightarrow>
     (lr_result (read_list env option) = ''error'' \<longrightarrow>
        load_list env option s =
          (message (''Err! '' @ lr_message (read_list env option)) (s\<lparr>load_value := []\<rparr>), False))
   \<and> (lr_result (read_list env option) \<noteq> ''error'' \<and> lr_catalog (read_list env option) = [] \<longrightarrow>
        load_list env option s = (message ''No matches'' (s\<lparr>load_value := []\<rparr>), False))
   \<and> (lr_result (read_list env option) = ''error'' \<or> lr_catalog (read_list env option) = [] \<longrightarrow>
        observing_list (fst (load_list env option s)) = observing_list s
        \<and> active_list (fst (load_list env option s)) = active_list s
        \<and> history_list (fst (load_list env option s)) = history_list s
        \<and> target_index (fst (load_list env option s)) = target_index s
        \<and> target (fst (load_list env option s)) = target s)
   \<and> (lr_result (read_list env option) \<noteq> ''error'' \<and> lr_catalog (read_list env option) \<noteq> [] \<longrightarrow>
        snd (load_list env option s)
        \<and> observing_list (fst (load_list env option s)) = lr_catalog (read_list env option)
        \<and> active_list (fst (load_list env option s)) = lr_catalog (read_list env option)
        \<and> target_index (fst (load_list env option s)) = Some 0
        \<and> target (fst (load_list env option s)) = Some (hd (lr_catalog (read_list env option)))
        \<and> messages (fst (load_list env option s)) =
            messages s @ [''Loaded '' @ str (length (lr_catalog (read_list env option)))
                          @ '' of '' @ str (lr_objects_parsed (read_list env option))])"
  by (auto simp add: load_list_def Let_def message_def split: list.split)

text \<open>
  Claim C7 with a store that answers with an error: the message is \<^verbatim>\<open>Err! no file\<close> and
  the lists, the cursor and the target stay.
\<close>

theorem load_list_failure_keeps_state_witness:
  "''saved'' \<noteq> ''CANCEL''
   \<and> lr_result (read_list example_env ''saved'') = ''error''
   \<and> load_list example_env ''saved'' example_locate =
        (message ''Err! no file'' (example_locate\<lparr>load_value := []\<rparr>), False)
   \<and> observing_list (fst (load_list example_env ''saved'' example_locate)) = []
   \<and> active_list (fst (load_list example_env ''saved'' example_locate)) = [example_object]
   \<and> target_index (fst (load_list example_env ''saved'' example_locate)) = Some 0
   \<and> target (fst (load_list example_env ''saved'' example_locate)) = Some example_object"
  using load_list_failure_keeps_state
    [where option = "''saved''" and env = example_env and s = example_locate]
  by (simp add: example_env_fields example_locate_fields)

text \<open>
  The guard of \<^verbatim>\<open>save_list\<close> as it is written. For either scope, saving reports
  \<^verbatim>\<open>No objects\<close> and writes nothing exactly when the active list is empty; otherwise it
  writes the list the scope selects (the history list for \<^verbatim>\<open>History\<close>, the observing
  list otherwise) under the name made of the identifier, the scope and the count, and
  reports \<^verbatim>\<open>Saved list\<close>. The list tested is not the list written.
\<close>

lemma save_list_guard:
  "option = ''History'' \<or> option = ''Observ'' \<longrightarrow>
     (active_list s = [] \<longrightarrow>
        save_list option s = (message ''No objects'' (s\<lparr>load_value := []\<rparr>), False)
        \<and> written (fst (save_list option s)) = written s)
   \<and> (active_list s \<noteq> [] \<longrightarrow>
        snd (save_list option s)
        \<and> written (fst (save_list option s)) =
            written s @ [(uuid s @ ''_'' @ option @ ''_'' @ format_02d (ss_count s),
                          if option = ''History'' then history_list s else observing_list s)]
        \<and> messages (fst (save_list option s)) =
            messages s @ [''Saved list - '' @ format_02d (ss_count s)])"
  by (auto simp add: save_list_def Let_def message_def)

text \<open>
  Claim C8 at an input where the code departs from it. With the observing list active and
  an empty history list, as after loading a list on a fresh screen, saving with the scope
  \<^verbatim>\<open>History\<close> passes the \<^verbatim>\<open>No objects\<close> guard, writes the empty history list and reports
  \<^verbatim>\<open>Saved list\<close>, where the claim has the save refused with nothing written.
\<close>

theorem save_list_writes_empty_history:
  "history_list (example_locate\<lparr>history_list := [], observing_list := [example_object]\<rparr>) = []
   \<and> snd (save_list ''History''
        (example_locate\<lparr>history_list := [], observing_list := [example_object]\<rparr>))
   \<and> written (fst (save_list ''History''
        (example_locate\<lparr>history_list := [], observing_list := [example_object]\<rparr>)))
      = [(''u_History_00'', [])]
   \<and> messages (fst (save_list ''History''
        (example_locate\<lparr>history_list := [], observing_list := [example_object]\<rparr>)))
      = [''Saved list - 00'']"
  by (simp add: save_list_def Let_def message_def example_locate_fields format_02d_0)

section \<open>The pointing instructions\<close>

text \<open>
  Claim C2 at the inputs where the code departs from it. With location, time and solution
  present and the solved altitude exactly 0, or not yet solved, \<^verbatim>\<open>aim_degrees\<close> returns
  neither the pair of deltas nor the pair of \<^verbatim>\<open>None\<close>: it returns the bare \<^verbatim>\<open>None\<close>, and
  \<^verbatim>\<open>update\<close> raises \<^verbatim>\<open>TypeError\<close> when it unpacks it. With the solution missing the
  placeholder is drawn.
\<close>

theorem aim_degrees_falls_through:
  "aim_degrees example_env (example_shared 90 0) example_locate = Inr None
   \<and> update example_env (example_shared 90 0) example_locate = Inl TypeError
   \<and> aim_degrees example_env
        ((example_shared 90 0)\<lparr>solution := Some \<lparr>Az = None, Alt = None\<rparr>\<rparr>) example_locate
      = Inr None
   \<and> update example_env
        ((example_shared 90 0)\<lparr>solution := Some \<lparr>Az = None, Alt = None\<rparr>\<rparr>) example_locate
      = Inl TypeError
   \<and> update example_env ((example_shared 90 0)\<lparr>solution := None\<rparr>) example_locate
      = Inr (TargetFrame ''N5'' (Some (''      1/1'', ''     Hist'')) ''Gx             And''
               Placeholder)"
proof -
  have a1: "aim_degrees example_env (example_shared 90 0) example_locate = Inr None"
    by (simp add: aim_degrees_def example_shared_fields truthy_def)
  have a2: "aim_degrees example_env
        ((example_shared 90 0)\<lparr>solution := Some \<lparr>Az = None, Alt = None\<rparr>\<rparr>) example_locate
      = Inr None"
    by (simp add: aim_degrees_def example_shared_fields truthy_def)
  have a3: "aim_degrees example_env ((example_shared 90 0)\<lparr>solution := None\<rparr>) example_locate
      = Inr (Some (None, None))"
    by (simp add: aim_degrees_def example_shared_fields)
  have name: "catalog example_object @ str (designation example_object) = ''N5''"
    by (simp add: example_object_def str_5)
  show ?thesis
    unfolding a1 a2 a3 update_def
    by (simp add: a1 a2 a3 example_locate_fields name rjust_def str_1 eval_nat_numeral truthy_def)
qed

lemma aim_degrees_missing:
  "location sh = None \<or> datetime sh = None \<or> solution sh = None \<Longrightarrow>
   aim_degrees env sh s = Inr (Some (None, None))"
  by (auto simp add: aim_degrees_def split: option.split)

lemma aim_degrees_pair:
  assumes "location sh = Some loc" "datetime sh = Some dt" "solution sh = Some sol"
    and "Alt sol = Some alt" "alt \<noteq> 0" "Az sol = Some az" "target s = Some t"
  shows "aim_degrees env sh s =
     Inr (Some
       (Some (normalize_signed_180
                (binary64 (snd (radec_to_altaz env loc (ra t) (dec t) dt) - az))),
        Some (normalize_signed_180
                (binary64 (fst (radec_to_altaz env loc (ra t) (dec t) dt) - alt)))))"
  using assms by (simp add: aim_degrees_def truthy_def split: prod.split)

lemma aim_degrees_zero_alt:
  assumes "location sh = Some loc" "datetime sh = Some dt" "solution sh = Some sol"
    and "Alt sol = None \<or> Alt sol = Some 0"
  shows "aim_degrees env sh s = Inr None \<and> (target s \<noteq> None \<and> locate_object_text s \<noteq> [] \<longrightarrow> update env sh s = Inl TypeError)"
  using assms by (auto simp add: aim_degrees_def update_def truthy_def Let_def split: list.split)

text \<open>
  Claim C10. Whenever \<^verbatim>\<open>aim_degrees\<close> returns a pair whose azimuth delta is exactly 0,
  \<^verbatim>\<open>update\<close> draws the placeholder in place of the pointing numbers, and the frame is the
  one drawn when there is no solution at all.
\<close>

theorem update_zero_azimuth_placeholder:
  "aim_degrees env sh s = Inr (Some (Some 0, point_alt)) \<and> locate_object_text s \<noteq> [] \<longrightarrow>
     (\<exists>line index_lines id_line.
         update env sh s = Inr (TargetFrame line index_lines id_line Placeholder))
   \<and> update env sh s = update env (sh\<lparr>solution := None\<rparr>) s"
proof (intro impI)
  assume h: "aim_degrees env sh s = Inr (Some (Some 0, point_alt)) \<and> locate_object_text s \<noteq> []"
  then obtain t where t: "target s = Some t"
    by (cases "target s") (auto simp add: aim_degrees_def split: option.splits if_splits)
  from h obtain l ls where l: "locate_object_text s = l # ls"
    by (cases "locate_object_text s") auto
  have nofix: "aim_degrees env (sh\<lparr>solution := None\<rparr>) s = Inr (Some (None, None))"
    by (rule aim_degrees_missing) simp
  from h t l nofix show "(\<exists>line index_lines id_line.
         update env sh s = Inr (TargetFrame line index_lines id_line Placeholder))
   \<and> update env sh s = update env (sh\<lparr>solution := None\<rparr>) s"
    by (simp add: update_def Let_def truthy_def)
qed

text \<open>
  Claim C10 with the target at azimuth 90 and altitude 15 and the observer at azimuth 90
  and altitude 10: the deltas are 0 and 5 and the placeholder is drawn; with the observer
  at azimuth 88 the numbers 2 and 5 are drawn.
\<close>

theorem update_zero_azimuth_placeholder_witness:
  "aim_degrees example_env (example_shared 90 10) example_locate = Inr (Some (Some 0, Some 5))
   \<and> locate_object_text example_locate \<noteq> []
   \<and> update example_env (example_shared 90 10) example_locate =
       Inr (TargetFrame ''N5'' (Some (''      1/1'', ''     Hist'')) ''Gx             And''
              Placeholder)
   \<and> update example_env (example_shared 88 10) example_locate =
       Inr (TargetFrame ''N5'' (Some (''      1/1'', ''     Hist'')) ''Gx             And''
              (Pointing True 2 True 5))"
proof -
  have n0: "normalize_signed_180 0 = 0" "normalize_signed_180 5 = 5" "normalize_signed_180 2 = 2"
    "binary64 0 = 0" "binary64 5 = 5" "binary64 2 = 2"
    using normalize_signed_180_of_int [of 0] normalize_signed_180_of_int [of 5]
      normalize_signed_180_of_int [of 2] binary64_small_int [of 0] binary64_small_int [of 5]
      binary64_small_int [of 2]
    by simp_all
  have a: "aim_degrees example_env (example_shared 90 10) example_locate = Inr (Some (Some 0, Some 5))"
    by (simp add: aim_degrees_def example_shared_fields example_env_fields example_locate_fields
        truthy_def n0)
  have b: "aim_degrees example_env (example_shared 88 10) example_locate = Inr (Some (Some 2, Some 5))"
    by (simp add: aim_degrees_def example_shared_fields example_env_fields example_locate_fields
        truthy_def n0)
  have name: "catalog example_object @ str (designation example_object) = ''N5''"
    by (simp add: example_object_def str_5)
  have c: "update example_env (example_shared 88 10) example_locate =
       Inr (TargetFrame ''N5'' (Some (''      1/1'', ''     Hist'')) ''Gx             And''
              (Pointing True 2 True 5))"
    by (simp add: update_def b example_locate_fields name rjust_def str_1 eval_nat_numeral truthy_def)
  have d: "update example_env (example_shared 90 10) example_locate =
       Inr (TargetFrame ''N5'' (Some (''      1/1'', ''     Hist'')) ''Gx             And''
              Placeholder)"
    by (simp add: update_def a example_locate_fields name rjust_def str_1 eval_nat_numeral truthy_def)
  from a c d
    update_zero_azimuth_placeholder
      [where env = example_env and sh = "example_shared 90 10" and s = example_locate
        and point_alt = "Some 5"]
  show ?thesis
    by (simp add: example_locate_fields)
qed

section \<open>The invariant of the cursor\<close>

lemma index_of_Inr:
  "index_of xs x = Inr i \<Longrightarrow> i < length xs \<and> xs ! i = x"
proof (induction xs arbitrary: i)
  case Nil
  then show ?case by simp
next
  case (Cons y ys)
  show ?case
  proof (cases "y = x")
    case True
    with Cons.prems show ?thesis by simp
  next
    case False
    with Cons.prems obtain j where j: "index_of ys x = Inr j" "i = Suc j"
      by (auto split: sum.splits)
    with Cons.IH [of j] show ?thesis by simp
  qed
qed

lemma index_of_Inl:
  "x \<notin> set xs \<Longrightarrow> index_of xs x = Inl ValueError"
  by (induction xs) auto

lemma key_b_consistent: "cursor_consistent (key_b env s)"
  by (auto simp add: key_b_def cursor_consistent_def Let_def)

lemma scroll_consistent:
  assumes "cursor_consistent s"
  shows "cursor_consistent (fst (scroll_target_history env sh d s))"
proof (cases "target_index s")
  case None
  with assms show ?thesis
    by (simp add: scroll_target_history_def)
next
  case (Some i)
  with assms have "i < length (active_list s)"
    by (simp add: cursor_consistent_def)
  with Some show ?thesis
    by (auto simp add: scroll_target_history_def cursor_consistent_def Let_def)
qed

lemma load_consistent:
  assumes "cursor_consistent s"
  shows "cursor_consistent (fst (load_list env option s))"
  using assms
  by (auto simp add: load_list_def cursor_consistent_def Let_def message_def
      split: list.split option.splits)

lemma save_consistent:
  assumes "cursor_consistent s"
  shows "cursor_consistent (fst (save_list option s))"
  using assms
  by (auto simp add: save_list_def cursor_consistent_def Let_def message_def
      split: option.splits)

lemma active_consistent: "cursor_consistent (fst (active env sh s))"
  by (auto simp add: active_def cursor_consistent_def Let_def
      split: option.splits sum.splits dest: index_of_Inr)

lemma active_not_found:
  assumes "target s \<notin> set (map Some (active_list s))"
  shows "target_index (fst (active env sh s)) = None"
proof (cases "target s")
  case None
  then show ?thesis by (simp add: active_def Let_def)
next
  case (Some t)
  with assms have "t \<notin> set (active_list s)" by auto
  then have "index_of (active_list s) t = Inl ValueError" by (rule index_of_Inl)
  with Some show ?thesis by (simp add: active_def Let_def)
qed

lemma aim_degrees_no_ValueError: "aim_degrees env sh s \<noteq> Inl ValueError"
  by (simp add: aim_degrees_def split: option.split prod.split)

lemma update_no_ValueError: "update env sh s \<noteq> Inl ValueError"
  using aim_degrees_no_ValueError [of env sh s]
  by (auto simp add: update_def Let_def split: option.split list.split sum.split prod.split)

lemma reachable_consistent: "reachable s \<Longrightarrow> cursor_consistent s"
proof (induction rule: reachable.induct)
  case (initial s)
  then show ?case by (simp add: cursor_consistent_def)
next
  case (switch s env)
  show ?case by (rule key_b_consistent)
next
  case (scroll_up s env sh)
  then show ?case by (simp add: key_up_locate_def scroll_consistent)
next
  case (scroll_down s env sh)
  then show ?case by (simp add: key_down_locate_def scroll_consistent)
next
  case (load s env option)
  then show ?case by (simp add: load_consistent)
next
  case (save s option)
  then show ?case by (simp add: save_consistent)
next
  case (enter s)
  then show ?case by (auto simp add: key_enter_locate_def cursor_consistent_def split: option.splits)
next
  case (reentry s env sh)
  show ?case by (rule active_consistent)
qed

text \<open>
  Claim C5. In every state reached by the operations of the screen, a cursor that is set
  is a position of the active list and the shared target is the element there. Entering
  the screen establishes this from any state, and when the shared target is not in the
  active list (or there is none) the cursor is cleared and no \<^verbatim>\<open>ValueError\<close> is raised.
\<close>

theorem cursor_invariant:
  "(reachable s \<longrightarrow> cursor_consistent s)
   \<and> cursor_consistent (fst (active env sh s'))
   \<and> (target s' \<notin> set (map Some (active_list s')) \<longrightarrow>
        target_index (fst (active env sh s')) = None
        \<and> snd (active env sh s') \<noteq> Inl ValueError)"
proof -
  have "snd (active env sh s') = update env sh (fst (active env sh s'))"
    by (simp add: active_def Let_def)
  then have "snd (active env sh s') \<noteq> Inl ValueError"
    by (simp add: update_no_ValueError)
  with reachable_consistent [of s] active_consistent [of env sh s'] active_not_found [of s' env sh]
  show ?thesis
    by blast
qed

text \<open>
  Claim C5 on the state reached from a fresh screen by a switch to an observing list of two
  objects and one scroll down, whose cursor is 1, and on entering the screen with a target
  that is not in the active list.
\<close>

theorem cursor_invariant_witness:
  "reachable (fst (key_down_locate example_env (example_shared 90 10)
       (key_b example_env
          (example_locate\<lparr>target_index := None,
             observing_list := [example_object, example_object\<lparr>designation := 9\<rparr>]\<rparr>))))
   \<and> cursor_consistent (fst (key_down_locate example_env (example_shared 90 10)
       (key_b example_env
          (example_locate\<lparr>target_index := None,
             observing_list := [example_object, example_object\<lparr>designation := 9\<rparr>]\<rparr>))))
   \<and> target_index (fst (key_down_locate example_env (example_shared 90 10)
       (key_b example_env
          (example_locate\<lparr>target_index := None,
             observing_list := [example_object, example_object\<lparr>designation := 9\<rparr>]\<rparr>))))
       = Some 1
   \<and> target (example_locate\<lparr>target := Some (example_object\<lparr>designation := 9\<rparr>)\<rparr>)
       \<notin> set (map Some (active_list
           (example_locate\<lparr>target := Some (example_object\<lparr>designation := 9\<rparr>)\<rparr>)))
   \<and> target_index (fst (active example_env (example_shared 90 10)
         (example_locate\<lparr>target := Some (example_object\<lparr>designation := 9\<rparr>)\<rparr>))) = None
   \<and> snd (active example_env (example_shared 90 10)
         (example_locate\<lparr>target := Some (example_object\<lparr>designation := 9\<rparr>)\<rparr>))
       \<noteq> Inl ValueError"
proof -
  let ?s0 = "example_locate\<lparr>target_index := None,
             observing_list := [example_object, example_object\<lparr>designation := 9\<rparr>]\<rparr>"
  let ?w = "fst (key_down_locate example_env (example_shared 90 10) (key_b example_env ?s0))"
  let ?s' = "example_locate\<lparr>target := Some (example_object\<lparr>designation := 9\<rparr>)\<rparr>"
  have "reachable ?s0"
    by (rule reachable.initial) simp
  then have "reachable (key_b example_env ?s0)"
    by (rule reachable.switch)
  then have r: "reachable ?w"
    by (rule reachable.scroll_down)
  have i: "target_index ?w = Some 1"
    by (simp add: key_down_locate_def scroll_target_history_def key_b_def Let_def
        example_locate_fields)
  have n: "target ?s' \<notin> set (map Some (active_list ?s'))"
    by (simp add: example_locate_fields example_object_def)
  from r i n
    cursor_invariant [where s = ?w and env = example_env and sh = "example_shared 90 10"
      and s' = ?s']
  show ?thesis
    by blast
qed

end
